theory Spec2Isabelle
  imports Complex_Main
begin

section \<open>The KLT model-based tracker (vpMbKltTracker)\<close>

text \<open>
  A shallow embedding of \<^verbatim>\<open>vpMbKltTracker.cpp\<close>: the constructor, \<^verbatim>\<open>init\<close>,
  \<^verbatim>\<open>setPose\<close>, \<^verbatim>\<open>preTracking\<close>, \<^verbatim>\<open>postTracking\<close>, \<^verbatim>\<open>computeVVS\<close> and
  \<^verbatim>\<open>track\<close>.

  Conventions of the model.
  \<^item> A \<^verbatim>\<open>double\<close> is a \<^typ>\<open>real\<close>: the arithmetic is the exact one, rounding is not
    modelled.
  \<^item> An \<^verbatim>\<open>unsigned int\<close> is a \<^typ>\<open>nat\<close> reduced modulo \<open>2 ^ 32\<close> after every
    addition, multiplication and subtraction of the source.
  \<^item> An exception is a value: a function that can throw returns an optional exception
    or a sum next to the state of the object at the time of the throw, since the members
    assigned before the throw keep their new values.
  \<^item> The classes the tracker calls and whose code is not part of the file (the pose
    algebra, the exponential map, the KLT point tracker, the M-estimator, the
    pseudo-inverse, the geometry of a face) are parameters, gathered in one record of
    functions. Every theorem holds for every value of that record.
\<close>

subsection \<open>Machine arithmetic\<close>

definition u32 :: "nat \<Rightarrow> nat" where
  "u32 n = n mod 2 ^ 32"

text \<open>Unsigned subtraction \<^verbatim>\<open>a - b\<close>, which wraps below zero.\<close>

definition u32_minus :: "nat \<Rightarrow> nat \<Rightarrow> nat" where
  "u32_minus a b = nat ((int a - int b) mod 2 ^ 32)"

text \<open>
  The cast \<^verbatim>\<open>(int) x\<close> of a double truncates toward zero. A value outside the range of
  \<^verbatim>\<open>int\<close> is undefined behaviour in C++; the model keeps the truncated value, which is
  then different from zero as well.
\<close>

definition cast_int :: "real \<Rightarrow> int" where
  "cast_int x = (if 0 \<le> x then \<lfloor>x\<rfloor> else \<lceil>x\<rceil>)"

text \<open>\<^verbatim>\<open>vpMath::rad\<close>: degrees to radians.\<close>

definition vpMath_rad :: "real \<Rightarrow> real" where
  "vpMath_rad deg = (deg * pi) / 180"

subsection \<open>Data\<close>

type_synonym vpImagePoint = "real \<times> real"
type_synonym vpColVector = "real list"
type_synonym vpMatrix = "real list list"

datatype vpException =
    ModelNotInitialised
  | CameraNotInitialised
  | NotEnoughPointError
  | FaceException nat

record vpCameraParameters =
  px :: real
  py :: real
  u0 :: real
  v0 :: real

text \<open>
  Modelled from the spec: the class \<^verbatim>\<open>vpMbtKltPolygon\<close> is not part of the file. A face
  has a flag \<open>isTracked\<close>, a flag \<open>isvisible\<close> and a correspondence set: for every
  identifier of the point tracker, the reference position recorded at the last
  initialisation and the current position. The set is kept in the order in which the
  rows of the residual are laid out. The polygon itself (its 3D points, its normal, the
  homography it caches) is the opaque field \<open>geometry\<close>.
\<close>

record 'g vpMbtKltPolygon =
  geometry :: 'g
  isTracked :: bool
  isvisible :: bool
  minNbPoint :: nat
  curPoints :: "(int \<times> vpImagePoint \<times> vpImagePoint) list"

record klt_settings =
  trackerId :: int
  useHarris :: int
  maxFeatures :: int
  windowSize :: int
  quality :: real
  minDistance :: real
  harrisFreeParameter :: real
  blockSize :: int
  pyramidLevels :: int

text \<open>
  The collaborators of the tracker, as parameters: \<open>'p\<close> is \<^verbatim>\<open>vpHomogeneousMatrix\<close>,
  \<open>'g\<close> the geometry of a face, \<open>'k\<close> the state of \<^verbatim>\<open>vpKltOpencv\<close>, \<open>'i\<close> an image and
  \<open>'m\<close> the mask image given to the point tracker.
\<close>

record ('p, 'g, 'k, 'i, 'm) collaborators =
  hm_mult :: "'p \<Rightarrow> 'p \<Rightarrow> 'p"
  hm_inverse :: "'p \<Rightarrow> 'p"
  hm_identity :: 'p
  exp_direct :: "vpColVector \<Rightarrow> 'p"
  pseudoInverse :: "vpMatrix \<Rightarrow> real \<Rightarrow> vpMatrix"
  AtA :: "vpMatrix \<Rightarrow> vpMatrix"
  computeJTR :: "vpMatrix \<Rightarrow> vpColVector \<Rightarrow> vpMatrix"
  scale_matrix :: "real \<Rightarrow> vpMatrix \<Rightarrow> vpMatrix"
  mult_matrix :: "vpMatrix \<Rightarrow> vpMatrix \<Rightarrow> vpMatrix"
  column_of :: "vpMatrix \<Rightarrow> vpColVector"
  MEstimator :: "nat \<Rightarrow> real \<Rightarrow> vpColVector \<Rightarrow> vpColVector \<Rightarrow> vpColVector"
  klt_configure :: "klt_settings \<Rightarrow> 'k \<Rightarrow> 'k"
  klt_track :: "'i \<Rightarrow> 'k \<Rightarrow> 'k"
  klt_initTracking :: "'i \<Rightarrow> 'm \<Rightarrow> 'k \<Rightarrow> 'k"
  klt_features :: "'k \<Rightarrow> (int \<times> real \<times> real) list"
  zeroMask :: "'i \<Rightarrow> 'm"
  updateMask :: "'g \<Rightarrow> 'm \<Rightarrow> nat \<Rightarrow> nat \<Rightarrow> 'm"
  changeFrame :: "'p \<Rightarrow> 'g \<Rightarrow> 'g"
  normalAngle :: "'p \<Rightarrow> 'g \<Rightarrow> real"
  getPoints :: "'g \<Rightarrow> (real \<times> real) list"
  convertPoint :: "vpCameraParameters \<Rightarrow> real \<Rightarrow> real \<Rightarrow> vpImagePoint"
  roiInsideImage :: "'i \<Rightarrow> vpImagePoint list \<Rightarrow> bool"
  insideRoi :: "vpImagePoint list \<Rightarrow> vpImagePoint \<Rightarrow> bool"
  computeHomography :: "'p \<Rightarrow> 'g \<Rightarrow> 'g option"
  computeInteractionMatrixAndResidu ::
    "'g vpMbtKltPolygon \<Rightarrow> vpColVector \<Rightarrow> vpMatrix \<Rightarrow> (vpColVector \<times> vpMatrix) option"

record ('p, 'g, 'k, 'i) vpMbKltTracker =
  modelInitialised :: bool
  cameraInitialised :: bool
  cam :: vpCameraParameters
  cMo :: 'p
  c0Mo :: 'p
  ctTc0 :: 'p
  cur :: "'i option"
  compute_interaction :: bool
  firstInitialisation :: bool
  tracker :: 'k
  faces :: "'g vpMbtKltPolygon list"
  iPI0 :: "(int \<times> vpImagePoint) list"
  angleAppears :: real
  angleDisappears :: real
  maskBorder :: nat
  threshold_outlier :: real
  lambda :: real
  maxIter :: nat

subsection \<open>The constructor and setPose\<close>

text \<open>
  The constructor assigns the members below; \<open>s\<close> holds the members it leaves to the
  base class and to the default constructors.
\<close>

definition vpMbKltTracker_new ::
  "('p, 'g, 'k, 'i, 'm) collaborators \<Rightarrow> ('p, 'g, 'k, 'i) vpMbKltTracker
   \<Rightarrow> ('p, 'g, 'k, 'i) vpMbKltTracker" where
  "vpMbKltTracker_new X s =
     s\<lparr> cur := None,
        compute_interaction := True,
        firstInitialisation := True,
        tracker := klt_configure X
          \<lparr> trackerId = 1, useHarris = 1, maxFeatures = 10000, windowSize = 5,
            quality = 1 / 100, minDistance = 5, harrisFreeParameter = 1 / 100,
            blockSize = 3, pyramidLevels = 3 \<rparr> (tracker s),
        angleAppears := vpMath_rad 90,
        angleDisappears := vpMath_rad 90,
        maskBorder := 10,
        threshold_outlier := 1 / 2,
        lambda := 8 / 10,
        maxIter := 200 \<rparr>"

definition setPose ::
  "'p \<Rightarrow> ('p, 'g, 'k, 'i) vpMbKltTracker \<Rightarrow> ('p, 'g, 'k, 'i) vpMbKltTracker" where
  "setPose P s = s\<lparr> cMo := P \<rparr>"

subsection \<open>The methods of a face\<close>

text \<open>
  Modelled from the spec: the accessors of the flag \<open>isTracked\<close> of the missing class
  \<^verbatim>\<open>vpMbtKltPolygon\<close>.
\<close>

definition getIsTracked :: "'g vpMbtKltPolygon \<Rightarrow> bool" where
  "getIsTracked f = isTracked f"

definition setIsTracked :: "bool \<Rightarrow> 'g vpMbtKltPolygon \<Rightarrow> 'g vpMbtKltPolygon" where
  "setIsTracked b f = f\<lparr> isTracked := b \<rparr>"

text \<open>
  Modelled from the spec: \<^verbatim>\<open>getNbPointsCur\<close> of the missing class. The size of the
  correspondence set is the number of points of the face.
\<close>

definition getNbPointsCur :: "'g vpMbtKltPolygon \<Rightarrow> nat" where
  "getNbPointsCur f = u32 (length (curPoints f))"

text \<open>
  Modelled from the spec: \<^verbatim>\<open>hasEnoughPoints\<close> of the missing class. A face has enough
  points when its correspondence count reaches a minimum (4 in the spec's example).
\<close>

definition hasEnoughPoints :: "'g vpMbtKltPolygon \<Rightarrow> bool" where
  "hasEnoughPoints f = (minNbPoint f \<le> getNbPointsCur f)"

text \<open>
  Modelled from the spec: \<^verbatim>\<open>computeNbDetectedCurrent\<close> of the missing class. The
  correspondence set is intersected with the identifiers the point tracker reports: a
  point that is not reported is lost, a reported one gets its current position
  (\<open>i\<close> is the ordinate \<open>y\<close>, \<open>j\<close> the abscissa \<open>x\<close>).
\<close>

definition computeNbDetectedCurrent ::
  "(int \<times> real \<times> real) list \<Rightarrow> 'g vpMbtKltPolygon \<Rightarrow> 'g vpMbtKltPolygon" where
  "computeNbDetectedCurrent feats f =
     f\<lparr> curPoints :=
          concat (map (\<lambda>(ident, ref, _).
                         case map_of feats ident of
                           None \<Rightarrow> []
                         | Some (x, y) \<Rightarrow> [(ident, ref, (y, x))])
                      (curPoints f)) \<rparr>"

text \<open>
  Modelled from the spec: \<^verbatim>\<open>isVisible\<close> of the missing class. A face is visible when
  the angle of its normal to the viewing direction is below the threshold.
\<close>

definition isVisible ::
  "('p, 'g, 'k, 'i, 'm) collaborators \<Rightarrow> 'p \<Rightarrow> real \<Rightarrow> 'g vpMbtKltPolygon \<Rightarrow> bool" where
  "isVisible X M alpha f = (normalAngle X M (geometry f) < alpha)"

text \<open>
  \<^verbatim>\<open>changeFrame\<close> of the missing class: it acts on the geometry of the face only, through
  the parameter of the same name.
\<close>

definition face_changeFrame ::
  "('p, 'g, 'k, 'i, 'm) collaborators \<Rightarrow> 'p \<Rightarrow> 'g vpMbtKltPolygon \<Rightarrow> 'g vpMbtKltPolygon" where
  "face_changeFrame X M f = f\<lparr> geometry := changeFrame X M (geometry f) \<rparr>"

text \<open>
  Modelled from the spec: \<^verbatim>\<open>vpMbtKltPolygon::init\<close> of the missing class. The face gets
  fresh correspondences: the detected identifiers whose position lies within the polygon
  of the face in the image, each with its position as reference and as current position.
\<close>

definition face_init ::
  "('p, 'g, 'k, 'i, 'm) collaborators \<Rightarrow> (int \<times> vpImagePoint) list \<Rightarrow> vpImagePoint list
   \<Rightarrow> 'g vpMbtKltPolygon \<Rightarrow> 'g vpMbtKltPolygon" where
  "face_init X pts roi f =
     f\<lparr> curPoints := map (\<lambda>(ident, p). (ident, p, p))
                          (filter (\<lambda>(ident, p). insideRoi X roi p) pts) \<rparr>"

text \<open>
  Modelled from the spec: \<^verbatim>\<open>removeOutliers\<close> of the missing class. The weight vector
  holds two entries for every point, in the order of the correspondence set; a point one
  of whose weights is below the threshold is dropped. A point for which the vector holds
  no pair of weights is kept.
\<close>

fun dropOutliers :: "vpColVector \<Rightarrow> real \<Rightarrow> 'a list \<Rightarrow> 'a list" where
  "dropOutliers (wx # wy # ws) thr (c # cs) =
     (if wx < thr \<or> wy < thr then dropOutliers ws thr cs
      else c # dropOutliers ws thr cs)"
| "dropOutliers ws thr cs = cs"

definition removeOutliers ::
  "vpColVector \<Rightarrow> real \<Rightarrow> 'g vpMbtKltPolygon \<Rightarrow> 'g vpMbtKltPolygon" where
  "removeOutliers sub_w thr f = f\<lparr> curPoints := dropOutliers sub_w thr (curPoints f) \<rparr>"

subsection \<open>Sub-vectors\<close>

text \<open>
  \<^verbatim>\<open>vpSubColVector\<close> and \<^verbatim>\<open>vpSubMatrix\<close> are views of \<open>n\<close> rows of a parent, from
  row \<open>shift\<close> on. Reading a view is \<open>vpSub\<close>; writing through it is \<open>vpSub_assign\<close>,
  which changes the rows of the view only and never the size of the parent.
\<close>

definition vpSub :: "'a list \<Rightarrow> nat \<Rightarrow> nat \<Rightarrow> 'a list" where
  "vpSub xs shift n = take n (drop shift xs)"

definition vpSub_assign :: "nat \<Rightarrow> nat \<Rightarrow> 'a list \<Rightarrow> 'a list \<Rightarrow> 'a list" where
  "vpSub_assign shift n new xs =
     (let blk = take (length (vpSub xs shift n)) new
      in take shift xs @ blk @ drop (shift + length blk) xs)"

subsection \<open>init\<close>

text \<open>The first loop of \<^verbatim>\<open>init\<close>: the mask of the visible faces.\<close>

fun init_mask ::
  "('p, 'g, 'k, 'i, 'm) collaborators \<Rightarrow> 'p \<Rightarrow> real \<Rightarrow> nat \<Rightarrow> nat
   \<Rightarrow> 'g vpMbtKltPolygon list \<Rightarrow> 'm \<Rightarrow> 'g vpMbtKltPolygon list \<times> 'm" where
  "init_mask X M alpha border i [] msk = ([], msk)"
| "init_mask X M alpha border i (f # fs) msk =
     (let f' = face_changeFrame X M f;
          msk' = (if isVisible X M alpha f'
                   then updateMask X (geometry f') msk (u32_minus 255 (u32 (i * 15))) border
                   else msk)
      in case init_mask X M alpha border (Suc i) fs msk' of
           (fs', m) \<Rightarrow> (f' # fs', m))"

text \<open>\<^verbatim>\<open>iPI0[id] = iP\<close> on a \<^verbatim>\<open>std::map\<close>: keys stay sorted, a key present is overwritten.\<close>

fun map_assign :: "int \<Rightarrow> 'v \<Rightarrow> (int \<times> 'v) list \<Rightarrow> (int \<times> 'v) list" where
  "map_assign k v [] = [(k, v)]"
| "map_assign k v ((k', v') # kvs) =
     (if k < k' then (k, v) # (k', v') # kvs
      else if k = k' then (k, v) # kvs
      else (k', v') # map_assign k v kvs)"

definition init_points :: "(int \<times> real \<times> real) list \<Rightarrow> (int \<times> vpImagePoint) list" where
  "init_points feats = foldl (\<lambda>m (ident, x_tmp, y_tmp). map_assign ident (y_tmp, x_tmp) m) [] feats"

text \<open>The body of the second loop of \<^verbatim>\<open>init\<close>.\<close>

definition init_face ::
  "('p, 'g, 'k, 'i, 'm) collaborators \<Rightarrow> 'i \<Rightarrow> vpCameraParameters \<Rightarrow> 'p \<Rightarrow> real
   \<Rightarrow> (int \<times> vpImagePoint) list \<Rightarrow> 'g vpMbtKltPolygon \<Rightarrow> 'g vpMbtKltPolygon" where
  "init_face X I c M alpha pts f =
     (if isVisible X M alpha f then
        (let f' = face_changeFrame X M f;
             roi = map (\<lambda>(x, y). convertPoint X c x y) (getPoints X (geometry f'))
         in if roiInsideImage X I roi
            then setIsTracked True (face_init X pts roi f')
            else setIsTracked False f')
      else setIsTracked False f)"

definition init ::
  "('p, 'g, 'k, 'i, 'm) collaborators \<Rightarrow> 'i \<Rightarrow> ('p, 'g, 'k, 'i) vpMbKltTracker
   \<Rightarrow> vpException option \<times> ('p, 'g, 'k, 'i) vpMbKltTracker" where
  "init X I s =
     (if \<not> modelInitialised s then (Some ModelNotInitialised, s)
      else if \<not> cameraInitialised s then (Some CameraNotInitialised, s)
      else
        (let s1 = s\<lparr> c0Mo := cMo s \<rparr>;
             s2 = s1\<lparr> ctTc0 := hm_identity X, cur := Some I \<rparr>;
             (fs, msk) = init_mask X (c0Mo s2) (angleAppears s2) (maskBorder s2) 0
                            (faces s2) (zeroMask X I);
             trk = klt_initTracking X I msk (tracker s2);
             pts = init_points (klt_features X trk);
             fs' = map (init_face X I (cam s2) (c0Mo s2) (angleAppears s2) pts) fs
         in (None, s2\<lparr> tracker := trk, iPI0 := pts, faces := fs' \<rparr>)))"

subsection \<open>preTracking\<close>

fun preTracking_faces ::
  "(int \<times> real \<times> real) list \<Rightarrow> 'g vpMbtKltPolygon list \<Rightarrow> nat \<Rightarrow> nat
   \<Rightarrow> 'g vpMbtKltPolygon list \<times> nat \<times> nat" where
  "preTracking_faces feats [] nbInfos nbFaceUsed = ([], nbInfos, nbFaceUsed)"
| "preTracking_faces feats (f # fs) nbInfos nbFaceUsed =
     (if getIsTracked f then
        (let f' = computeNbDetectedCurrent feats f in
         if hasEnoughPoints f' then
           (case preTracking_faces feats fs (u32 (nbInfos + getNbPointsCur f'))
                   (u32 (nbFaceUsed + 1)) of
              (fs', a, b) \<Rightarrow> (f' # fs', a, b))
         else
           (case preTracking_faces feats fs nbInfos nbFaceUsed of
              (fs', a, b) \<Rightarrow> (f' # fs', a, b)))
      else
        (case preTracking_faces feats fs nbInfos nbFaceUsed of
           (fs', a, b) \<Rightarrow> (f # fs', a, b)))"

text \<open>The result is \<open>(nbInfos, nbFaceUsed, state)\<close>.\<close>

definition preTracking ::
  "('p, 'g, 'k, 'i, 'm) collaborators \<Rightarrow> 'i \<Rightarrow> ('p, 'g, 'k, 'i) vpMbKltTracker
   \<Rightarrow> nat \<times> nat \<times> ('p, 'g, 'k, 'i) vpMbKltTracker" where
  "preTracking X I s =
     (let trk = klt_track X I (tracker s);
          (fs, nbInfos, nbFaceUsed) = preTracking_faces (klt_features X trk) (faces s) 0 0
      in (nbInfos, nbFaceUsed, s\<lparr> cur := Some I, tracker := trk, faces := fs \<rparr>))"

subsection \<open>postTracking\<close>

fun postTracking_faces ::
  "vpColVector \<Rightarrow> real \<Rightarrow> 'g vpMbtKltPolygon list \<Rightarrow> nat \<Rightarrow> 'g vpMbtKltPolygon list" where
  "postTracking_faces w thr [] shift = []"
| "postTracking_faces w thr (f # fs) shift =
     (if getIsTracked f \<and> hasEnoughPoints f then
        (let sub_w = vpSub w shift (u32 (2 * getNbPointsCur f));
             f' = removeOutliers sub_w thr f
         in f' # postTracking_faces w thr fs (u32 (shift + u32 (2 * getNbPointsCur f'))))
      else f # postTracking_faces w thr fs shift)"

text \<open>
  Modelled from the spec: \<^verbatim>\<open>vpMbHiddenFaces::setVisible\<close> is not part of the file. The
  visibility of every face is recomputed at the pose, with the threshold for becoming
  visible when the face is not visible and the threshold for becoming occluded when it
  is; a face that goes from not visible to visible asks for a re-initialisation.
\<close>

definition face_setVisible ::
  "('p, 'g, 'k, 'i, 'm) collaborators \<Rightarrow> 'p \<Rightarrow> real \<Rightarrow> real \<Rightarrow> 'g vpMbtKltPolygon
   \<Rightarrow> 'g vpMbtKltPolygon" where
  "face_setVisible X M aAppears aDisappears f =
     f\<lparr> isvisible := (if isvisible f then isVisible X M aDisappears f
                       else isVisible X M aAppears f) \<rparr>"

definition setVisible ::
  "('p, 'g, 'k, 'i, 'm) collaborators \<Rightarrow> 'p \<Rightarrow> real \<Rightarrow> real \<Rightarrow> 'g vpMbtKltPolygon list
   \<Rightarrow> 'g vpMbtKltPolygon list \<times> bool" where
  "setVisible X M aAppears aDisappears fs =
     (map (face_setVisible X M aAppears aDisappears) fs,
      list_ex (\<lambda>f. \<not> isvisible f \<and> isvisible (face_setVisible X M aAppears aDisappears f)) fs)"

definition postTracking ::
  "('p, 'g, 'k, 'i, 'm) collaborators \<Rightarrow> 'i \<Rightarrow> vpColVector \<Rightarrow> ('p, 'g, 'k, 'i) vpMbKltTracker
   \<Rightarrow> bool \<times> ('p, 'g, 'k, 'i) vpMbKltTracker" where
  "postTracking X I w s =
     (let fs = postTracking_faces w (threshold_outlier s) (faces s) 0;
          (fs', reInitialisation) =
             setVisible X (cMo s) (angleAppears s) (angleDisappears s) fs
      in (reInitialisation, s\<lparr> faces := fs' \<rparr>))"

subsection \<open>computeVVS\<close>

text \<open>The local variables of \<^verbatim>\<open>computeVVS\<close> that live across iterations.\<close>

record vvs_locals =
  loc_R :: vpColVector
  loc_J :: vpMatrix
  loc_w :: vpColVector
  normRes :: real
  normRes_1 :: real

text \<open>
  The loop over the faces that fills the residual and the interaction matrix. The result
  is the exception rethrown, if any, the faces, the two buffers and the final \<open>shift\<close>.
  The homography \<^verbatim>\<open>H\<close> that \<^verbatim>\<open>computeHomography\<close> also returns is never read by the
  tracker and is left out.
\<close>

fun computeVVS_faces ::
  "('p, 'g, 'k, 'i, 'm) collaborators \<Rightarrow> 'p \<Rightarrow> nat \<Rightarrow> 'g vpMbtKltPolygon list \<Rightarrow> nat
   \<Rightarrow> vpColVector \<Rightarrow> vpMatrix
   \<Rightarrow> vpException option \<times> 'g vpMbtKltPolygon list \<times> vpColVector \<times> vpMatrix \<times> nat" where
  "computeVVS_faces X T i [] shift R J = (None, [], R, J, shift)"
| "computeVVS_faces X T i (f # fs) shift R J =
     (if getIsTracked f \<and> hasEnoughPoints f then
        (let n2 = u32 (2 * getNbPointsCur f);
             subR = vpSub R shift n2;
             subJ = vpSub J shift n2
         in case computeHomography X T (geometry f) of
              None \<Rightarrow> (Some (FaceException i), f # fs, R, J, shift)
            | Some g \<Rightarrow>
                (let f' = f\<lparr> geometry := g \<rparr>
                 in case computeInteractionMatrixAndResidu X f' subR subJ of
                      None \<Rightarrow> (Some (FaceException i), f' # fs, R, J, shift)
                    | Some (subR', subJ') \<Rightarrow>
                        (case computeVVS_faces X T (Suc i) fs
                                (u32 (shift + u32 (2 * getNbPointsCur f')))
                                (vpSub_assign shift n2 subR' R)
                                (vpSub_assign shift n2 subJ' J) of
                           (e, fs', R', J', shift') \<Rightarrow> (e, f' # fs', R', J', shift'))))
      else
        (case computeVVS_faces X T (Suc i) fs shift R J of
           (e, fs', R', J', shift') \<Rightarrow> (e, f # fs', R', J', shift')))"

text \<open>\<^verbatim>\<open>R[i] *= w[i]\<close> for every row of \<open>R\<close>.\<close>

fun weight_residual :: "vpColVector \<Rightarrow> vpColVector \<Rightarrow> vpColVector" where
  "weight_residual (r # rs) (x # ws) = (r * x) # weight_residual rs ws"
| "weight_residual rs ws = rs"

text \<open>\<^verbatim>\<open>J[i][j] *= w[i]\<close> for the first \<open>n\<close> rows and the six columns.\<close>

fun weight_interaction :: "nat \<Rightarrow> vpMatrix \<Rightarrow> vpColVector \<Rightarrow> vpMatrix" where
  "weight_interaction (Suc n) (row # rows) (x # ws) =
     (map (\<lambda>a. a * x) (take 6 row) @ drop 6 row) # weight_interaction n rows ws"
| "weight_interaction n rows ws = rows"

text \<open>
  One pass of the body of the \<^verbatim>\<open>while\<close> loop, without \<^verbatim>\<open>iter++\<close>. \<open>Inl\<close> is the
  exception of a face with the state it leaves. The threshold \<^verbatim>\<open>2/cam.get_px()\<close> is
  only handed to the M-estimator; for \<open>px = 0\<close> the division of the reals gives 0 where
  the double is infinite.
\<close>

definition computeVVS_iteration ::
  "('p, 'g, 'k, 'i, 'm) collaborators \<Rightarrow> nat \<Rightarrow> nat
   \<Rightarrow> vvs_locals \<times> ('p, 'g, 'k, 'i) vpMbKltTracker
   \<Rightarrow> vpException \<times> ('p, 'g, 'k, 'i) vpMbKltTracker
      + vvs_locals \<times> ('p, 'g, 'k, 'i) vpMbKltTracker" where
  "computeVVS_iteration X nbInfos iter ls =
     (case ls of (loc, s) \<Rightarrow>
      (case computeVVS_faces X (ctTc0 s) 0 (faces s) 0 (loc_R loc) (loc_J loc) of
         (Some e, fs, R, J, shift) \<Rightarrow> Inl (e, s\<lparr> faces := fs \<rparr>)
       | (None, fs, R, J, shift) \<Rightarrow>
           (let w0 = (if iter = 0 then replicate (u32 (2 * nbInfos)) 1 else loc_w loc);
                w1 = MEstimator X iter (2 / px (cam s)) R w0;
                R1 = weight_residual R w1;
                nr = foldl (+) 0 R1;
                J1 = (if iter = 0 \<or> compute_interaction s
                      then weight_interaction (length R1) J w1 else J);
                JTJ = AtA X J1;
                JTR = computeJTR X J1 R1;
                v = column_of X
                      (mult_matrix X
                         (scale_matrix X (- lambda s) (pseudoInverse X JTJ (1 / 10 ^ 16)))
                         JTR)
            in Inr (loc\<lparr> loc_R := R1, loc_J := J1, loc_w := w1,
                         normRes_1 := normRes loc, normRes := nr \<rparr>,
                    s\<lparr> faces := fs,
                       ctTc0 := hm_mult X (hm_inverse X (exp_direct X v)) (ctTc0 s) \<rparr>))))"

text \<open>
  The \<^verbatim>\<open>while\<close> loop. The result holds the final value of \<^verbatim>\<open>iter\<close>, the number of
  passes completed. \<^verbatim>\<open>iter++\<close> cannot wrap: it runs only when \<open>iter < maxIter\<close>.
\<close>

function computeVVS_loop ::
  "('p, 'g, 'k, 'i, 'm) collaborators \<Rightarrow> nat \<Rightarrow> nat
   \<Rightarrow> vvs_locals \<times> ('p, 'g, 'k, 'i) vpMbKltTracker
   \<Rightarrow> vpException option \<times> nat \<times> vvs_locals \<times> ('p, 'g, 'k, 'i) vpMbKltTracker" where
  "computeVVS_loop X nbInfos iter ls =
     (if cast_int ((normRes (fst ls) - normRes_1 (fst ls)) * 100000000) \<noteq> 0
         \<and> iter < maxIter (snd ls) then
        (case computeVVS_iteration X nbInfos iter ls of
           Inl (e, s') \<Rightarrow> (Some e, iter, fst ls, s')
         | Inr ls' \<Rightarrow> computeVVS_loop X nbInfos (iter + 1) ls')
      else (None, iter, ls))"
  by pat_completeness auto
termination
proof (relation "measure (\<lambda>(X, nbInfos, iter, ls). maxIter (snd ls) - iter)")
  show "wf (measure (\<lambda>(X, nbInfos, iter, ls). maxIter (snd ls) - iter))"
    by simp
next
  fix X :: "('p, 'g, 'k, 'i, 'm) collaborators" and nbInfos iter :: nat
    and ls ls' :: "vvs_locals \<times> ('p, 'g, 'k, 'i) vpMbKltTracker"
  assume c: "cast_int ((normRes (fst ls) - normRes_1 (fst ls)) * 100000000) \<noteq> 0
      \<and> iter < maxIter (snd ls)"
    and r: "computeVVS_iteration X nbInfos iter ls = Inr ls'"
  from r have "maxIter (snd ls') = maxIter (snd ls)"
    by (auto simp: computeVVS_iteration_def Let_def
        split: prod.splits option.splits)
  moreover from c have "iter < maxIter (snd ls)"
    by blast
  ultimately show "((X, nbInfos, iter + 1, ls'), (X, nbInfos, iter, ls))
      \<in> measure (\<lambda>(X, nbInfos, iter, ls). maxIter (snd ls) - iter)"
    by auto
qed

text \<open>
  \<^verbatim>\<open>computeVVS(nbInfos, w)\<close>: \<open>w\<close> is passed by reference and returned. The rows that
  \<^verbatim>\<open>J.resize(2*nbInfos, 6, 0)\<close> does not clear are taken to be zero.
\<close>

definition computeVVS ::
  "('p, 'g, 'k, 'i, 'm) collaborators \<Rightarrow> nat \<Rightarrow> vpColVector
   \<Rightarrow> ('p, 'g, 'k, 'i) vpMbKltTracker
   \<Rightarrow> (vpException + vpColVector) \<times> ('p, 'g, 'k, 'i) vpMbKltTracker" where
  "computeVVS X nbInfos w s =
     (let loc0 = \<lparr> loc_R = replicate (u32 (2 * nbInfos)) 0,
                   loc_J = replicate (u32 (2 * nbInfos)) (replicate 6 0),
                   loc_w = w, normRes = 0, normRes_1 = - 1 \<rparr>
      in case computeVVS_loop X nbInfos 0 (loc0, s) of
           (Some e, iter, loc, s') \<Rightarrow> (Inl e, s')
         | (None, iter, loc, s') \<Rightarrow>
             (Inr (loc_w loc), s'\<lparr> cMo := hm_mult X (ctTc0 s') (c0Mo s') \<rparr>))"

subsection \<open>track\<close>

definition track ::
  "('p, 'g, 'k, 'i, 'm) collaborators \<Rightarrow> 'i \<Rightarrow> ('p, 'g, 'k, 'i) vpMbKltTracker
   \<Rightarrow> vpException option \<times> ('p, 'g, 'k, 'i) vpMbKltTracker" where
  "track X I s =
     (case preTracking X I s of
        (nbInfos, nbFaceUsed, s1) \<Rightarrow>
          if nbInfos < 4 \<or> nbFaceUsed = 0 then (Some NotEnoughPointError, s1)
          else
            (case computeVVS X nbInfos [] s1 of
               (Inl e, s2) \<Rightarrow> (Some e, s2)
             | (Inr w, s2) \<Rightarrow>
                 (case postTracking X I w s2 of
                    (reInitialisation, s3) \<Rightarrow>
                      if reInitialisation then init X I s3 else (None, s3))))"

section \<open>A tracker with one degree of freedom\<close>

text \<open>
  A concrete value of the collaborators, on which the theorems below are run. The world
  has one degree of freedom, the translation along the abscissa: a pose is a real, poses
  are composed by addition and inverted by negation, the exponential of a twist is the
  sum of its entries. The geometry of a face is its angle to the viewing direction and
  the incremental pose it was last given. A point predicted at \<open>j + T\<close> and observed at
  \<open>j'\<close> has the residual rows \<open>j + T - j'\<close> and \<open>i - i'\<close>, and the interaction rows
  \<open>(-1, 0, 0, 0, 0, 0)\<close> and \<open>(0, 0, 0, 0, 0, 0)\<close>: a camera that moves by \<open>v\<close> sees
  the point move by \<open>-v\<close>. The normal equations are those of
  the first column. The M-estimator gives the weight 1 to a residual below the threshold
  and 1/4 to any other. An image is the list of the features the point tracker finds
  in it.
\<close>

definition toy_column0 :: "vpMatrix \<Rightarrow> vpColVector" where
  "toy_column0 A = map (\<lambda>row. case row of [] \<Rightarrow> 0 | a # _ \<Rightarrow> a) A"

definition toy_residu ::
  "(real \<times> real) vpMbtKltPolygon \<Rightarrow> vpColVector \<Rightarrow> vpMatrix
   \<Rightarrow> (vpColVector \<times> vpMatrix) option" where
  "toy_residu f subR subJ =
     Some (concat (map (\<lambda>(ident, (ri, rj), (ci, cj)). [rj + snd (geometry f) - cj, ri - ci])
                       (curPoints f)),
           concat (map (\<lambda>c. [[- 1, 0, 0, 0, 0, 0], [0, 0, 0, 0, 0, 0]]) (curPoints f)))"

definition toy ::
  "(real, real \<times> real, (int \<times> real \<times> real) list, (int \<times> real \<times> real) list, nat list)
     collaborators" where
  "toy = \<lparr> hm_mult = (+), hm_inverse = uminus, hm_identity = 0, exp_direct = sum_list,
           pseudoInverse = (\<lambda>A eps. map (map (\<lambda>a. if \<bar>a\<bar> \<le> eps then 0 else 1 / a)) A),
           AtA = (\<lambda>A. [[sum_list (map (\<lambda>a. a * a) (toy_column0 A))]]),
           computeJTR = (\<lambda>A R. [[sum_list (map2 (*) (toy_column0 A) R)]]),
           scale_matrix = (\<lambda>c A. map (map ((*) c)) A),
           mult_matrix = (\<lambda>A B. [[sum_list (concat A) * sum_list (concat B)]]),
           column_of = concat,
           MEstimator = (\<lambda>iter thr R w. map (\<lambda>r. if \<bar>r\<bar> < thr then 1 else 1 / 4) R),
           klt_configure = (\<lambda>st k. k),
           klt_track = (\<lambda>I k. I),
           klt_initTracking = (\<lambda>I m k. I),
           klt_features = (\<lambda>k. k),
           zeroMask = (\<lambda>I. []),
           updateMask = (\<lambda>g m v b. m @ [v]),
           changeFrame = (\<lambda>M g. g),
           normalAngle = (\<lambda>M g. fst g),
           getPoints = (\<lambda>g. []),
           convertPoint = (\<lambda>c x y. (y * py c + v0 c, x * px c + u0 c)),
           roiInsideImage = (\<lambda>I roi. True),
           insideRoi = (\<lambda>roi p. True),
           computeHomography = (\<lambda>T g. Some (fst g, T)),
           computeInteractionMatrixAndResidu = toy_residu \<rparr>"

definition toy_face ::
  "real \<Rightarrow> (int \<times> vpImagePoint \<times> vpImagePoint) list \<Rightarrow> (real \<times> real) vpMbtKltPolygon" where
  "toy_face a pts =
     \<lparr> geometry = (a, 0), isTracked = True, isvisible = True, minNbPoint = 4,
       curPoints = pts \<rparr>"

definition toy_tracker ::
  "(real \<times> real) vpMbtKltPolygon list
   \<Rightarrow> (real, real \<times> real, (int \<times> real \<times> real) list, (int \<times> real \<times> real) list)
        vpMbKltTracker" where
  "toy_tracker fs =
     \<lparr> modelInitialised = True, cameraInitialised = True,
       cam = \<lparr> px = 1, py = 1, u0 = 0, v0 = 0 \<rparr>,
       cMo = 0, c0Mo = 0, ctTc0 = 0, cur = None,
       compute_interaction = True, firstInitialisation = True,
       tracker = [], faces = fs, iPI0 = [],
       angleAppears = 3 / 2, angleDisappears = 3 / 2, maskBorder = 10,
       threshold_outlier = 1 / 2, lambda = 8 / 10, maxIter = 200 \<rparr>"

text \<open>
  The four corners of a unit square, each seen at the abscissa \<open>j\<close> at the last
  initialisation and at \<open>j + d\<close> now.
\<close>

definition toy_square :: "real \<Rightarrow> (int \<times> vpImagePoint \<times> vpImagePoint) list" where
  "toy_square d =
     [(1, (0, 0), (0, d)), (2, (0, 1), (0, 1 + d)), (3, (1, 0), (1, d)), (4, (1, 1), (1, 1 + d))]"

text \<open>A tracker that looks at one face, the square seen one unit further than at the
  last initialisation, and the local variables of \<open>computeVVS\<close> at the entry of its loop
  and after the first pass.\<close>

definition toy_frame ::
  "(real, real \<times> real, (int \<times> real \<times> real) list, (int \<times> real \<times> real) list) vpMbKltTracker" where
  "toy_frame = toy_tracker [toy_face 1 (toy_square 1)]"

definition toy_locals0 :: vvs_locals where
  "toy_locals0 =
     \<lparr> loc_R = replicate 8 0, loc_J = replicate 8 (replicate 6 0), loc_w = [],
       normRes = 0, normRes_1 = - 1 \<rparr>"

definition toy_locals1 :: vvs_locals where
  "toy_locals1 =
     \<lparr> loc_R = [- 1, 0, - 1, 0, - 1, 0, - 1, 0],
       loc_J = [[- 1, 0, 0, 0, 0, 0], [0, 0, 0, 0, 0, 0], [- 1, 0, 0, 0, 0, 0],
                [0, 0, 0, 0, 0, 0], [- 1, 0, 0, 0, 0, 0], [0, 0, 0, 0, 0, 0],
                [- 1, 0, 0, 0, 0, 0], [0, 0, 0, 0, 0, 0]],
       loc_w = [1, 1, 1, 1, 1, 1, 1, 1], normRes = - 4, normRes_1 = 0 \<rparr>"

text \<open>
  The same square seen one unit further along the abscissa and one unit lower along the
  ordinate: every point has the residual rows \<open>-1\<close> and \<open>1\<close>.
\<close>

definition toy_skewed :: "(int \<times> vpImagePoint \<times> vpImagePoint) list" where
  "toy_skewed =
     [(1, (0, 0), (- 1, 1)), (2, (0, 1), (- 1, 2)), (3, (1, 0), (0, 1)), (4, (1, 1), (0, 2))]"

text \<open>
  A tracker with \<open>compute_interaction\<close> unset that looks at the square seen twenty units
  further, and the local variables of \<open>computeVVS\<close> after its first and second pass.
\<close>

definition toy_far ::
  "(real, real \<times> real, (int \<times> real \<times> real) list, (int \<times> real \<times> real) list) vpMbKltTracker" where
  "toy_far = (toy_tracker [toy_face 1 (toy_square 20)])\<lparr> compute_interaction := False \<rparr>"

definition toy_far_locals1 :: vvs_locals where
  "toy_far_locals1 =
     \<lparr> loc_R = [- 5, 0, - 5, 0, - 5, 0, - 5, 0],
       loc_J = [[- (1 / 4), 0, 0, 0, 0, 0], [0, 0, 0, 0, 0, 0], [- (1 / 4), 0, 0, 0, 0, 0],
                [0, 0, 0, 0, 0, 0], [- (1 / 4), 0, 0, 0, 0, 0], [0, 0, 0, 0, 0, 0],
                [- (1 / 4), 0, 0, 0, 0, 0], [0, 0, 0, 0, 0, 0]],
       loc_w = [1 / 4, 1, 1 / 4, 1, 1 / 4, 1, 1 / 4, 1], normRes = - 20, normRes_1 = 0 \<rparr>"

definition toy_far_locals2 :: vvs_locals where
  "toy_far_locals2 =
     \<lparr> loc_R = [- 1, 0, - 1, 0, - 1, 0, - 1, 0],
       loc_J = [[- 1, 0, 0, 0, 0, 0], [0, 0, 0, 0, 0, 0], [- 1, 0, 0, 0, 0, 0],
                [0, 0, 0, 0, 0, 0], [- 1, 0, 0, 0, 0, 0], [0, 0, 0, 0, 0, 0],
                [- 1, 0, 0, 0, 0, 0], [0, 0, 0, 0, 0, 0]],
       loc_w = [1 / 4, 1, 1 / 4, 1, 1 / 4, 1, 1 / 4, 1], normRes = - 4, normRes_1 = - 20 \<rparr>"

text \<open>Five points that have not moved, and a weight vector whose second pair is zero.\<close>

definition toy_five :: "(int \<times> vpImagePoint \<times> vpImagePoint) list" where
  "toy_five =
     [(1, (0, 0), (0, 0)), (2, (0, 1), (0, 1)), (3, (1, 0), (1, 0)), (4, (1, 1), (1, 1)),
      (5, (2, 2), (2, 2))]"

definition toy_weights :: vpColVector where
  "toy_weights = [1, 1, 0, 0, 1, 1, 1, 1, 1, 1]"

text \<open>
  The weights of two faces, the five points and then the four corners of the square at
  rest: the second of the five points and the first corner have the weights zero.
\<close>

definition toy_weights_two :: vpColVector where
  "toy_weights_two = [1, 1, 0, 0, 1, 1, 1, 1, 1, 1, 0, 0, 1, 1, 1, 1, 1, 1]"

text \<open>
  A tracker with two faces on the square at rest, the second with three of the four
  corners only; an image in which the four corners are found one unit further; and the
  tracker after the pre-tracking of that image.
\<close>

definition toy_image :: "(int \<times> real \<times> real) list" where
  "toy_image = [(1, 1, 0), (2, 2, 0), (3, 1, 1), (4, 2, 1)]"

definition toy_two ::
  "(real, real \<times> real, (int \<times> real \<times> real) list, (int \<times> real \<times> real) list) vpMbKltTracker" where
  "toy_two = toy_tracker [toy_face 1 (toy_square 0), toy_face 1 (take 3 (toy_square 0))]"

definition toy_two_tracked ::
  "(real, real \<times> real, (int \<times> real \<times> real) list, (int \<times> real \<times> real) list) vpMbKltTracker" where
  "toy_two_tracked =
     (toy_tracker [toy_face 1 (toy_square 1), toy_face 1 (take 3 (toy_square 1))])
       \<lparr> cur := Some toy_image, tracker := toy_image \<rparr>"

text \<open>
  A tracker whose only face, not visible so far, has the four corners of the square seen
  one unit further, and the same tracker after the pre-tracking of the image.
\<close>

definition toy_hidden ::
  "(real, real \<times> real, (int \<times> real \<times> real) list, (int \<times> real \<times> real) list) vpMbKltTracker" where
  "toy_hidden = toy_tracker [(toy_face 1 (toy_square 1))\<lparr> isvisible := False \<rparr>]"

definition toy_hidden_tracked ::
  "(real, real \<times> real, (int \<times> real \<times> real) list, (int \<times> real \<times> real) list) vpMbKltTracker" where
  "toy_hidden_tracked = toy_hidden\<lparr> cur := Some toy_image, tracker := toy_image \<rparr>"

section \<open>Properties\<close>

declare computeVVS_loop.simps [simp del]

subsection \<open>Arithmetic\<close>

lemma u32_small: "n < 4294967296 \<Longrightarrow> u32 n = n"
  by (simp add: u32_def)

lemma replicate_numeral: "replicate (numeral k) x = x # replicate (pred_numeral k) x"
  by (simp add: numeral_eq_Suc)

lemmas toy_eval = computeVVS_iteration_def toy_def toy_tracker_def toy_face_def toy_square_def
  toy_residu_def toy_column0_def Let_def u32_small cast_int_def getIsTracked_def
  hasEnoughPoints_def getNbPointsCur_def vpSub_def vpSub_assign_def replicate_numeral
  toy_frame_def toy_locals0_def toy_locals1_def toy_image_def

lemma cast_int_zero: "cast_int x = 0 \<longleftrightarrow> \<bar>x\<bar> < 1"
proof (cases "0 \<le> x")
  case True
  then show ?thesis
    by (auto simp: cast_int_def floor_eq_iff)
next
  case False
  then show ?thesis
    by (auto simp: cast_int_def ceiling_eq_iff)
qed

lemma cast_int_scaled:
  "cast_int (d * 100000000) \<noteq> 0 \<longleftrightarrow> 1 / 100000000 \<le> \<bar>d\<bar>"
  by (auto simp: cast_int_zero abs_mult)

lemma stopping_test:
  "cast_int ((a - b) * 100000000) \<noteq> 0 \<longleftrightarrow> 1 / 100000000 \<le> \<bar>a - b\<bar>"
  by (rule cast_int_scaled)

lemma weight_residual_map2:
  "length ws = length rs \<Longrightarrow> weight_residual rs ws = map2 (*) rs ws"
  by (induction rs ws rule: weight_residual.induct) auto

lemma sum_list_map2_nth:
  "length ws = length rs \<Longrightarrow>
     sum_list (map2 (*) rs ws) = (\<Sum>i<length rs. ws ! i * (rs :: real list) ! i)"
proof (induction rs arbitrary: ws)
  case Nil
  then show ?case by simp
next
  case (Cons r rs)
  then obtain x xs where ws: "ws = x # xs" "length xs = length rs"
    by (cases ws) auto
  from Cons.IH [OF ws(2)] ws show ?case
    by (simp add: sum.lessThan_Suc_shift mult.commute del: sum.lessThan_Suc)
qed

lemma foldl_plus_sum_list: "foldl (+) a xs = a + sum_list (xs :: real list)"
  by (induction xs arbitrary: a) auto

lemma u32_u32_add: "u32 (u32 a + b) = u32 (a + b)" "u32 (a + u32 b) = u32 (a + b)"
  by (simp_all add: u32_def mod_add_left_eq mod_add_right_eq)

lemma u32_mult_u32: "u32 (k * u32 n) = u32 (k * n)"
  by (simp add: u32_def mod_mult_right_eq)

lemma u32_lt: "u32 n < 4294967296"
  by (simp add: u32_def)

lemma length_vpSub_assign: "length (vpSub_assign shift n new xs) = length xs"
  by (auto simp: vpSub_assign_def vpSub_def Let_def min_def)

lemma nth_vpSub_assign:
  "k < shift \<or> shift + n \<le> k \<Longrightarrow> vpSub_assign shift n new xs ! k = xs ! k"
proof -
  define blk where "blk = take (length (vpSub xs shift n)) new"
  have lb: "length blk \<le> n" "length blk \<le> length xs - shift"
    by (simp_all add: blk_def vpSub_def)
  assume h: "k < shift \<or> shift + n \<le> k"
  have v: "vpSub_assign shift n new xs = take shift xs @ blk @ drop (shift + length blk) xs"
    by (simp add: vpSub_assign_def blk_def Let_def)
  show ?thesis
  proof (cases "k < shift")
    case True
    show ?thesis
    proof (cases "shift \<le> length xs")
      case True
      with \<open>k < shift\<close> show ?thesis
        by (simp add: v nth_append)
    next
      case False
      with lb have "length blk = 0" by simp
      with False show ?thesis
        by (simp add: v)
    qed
  next
    case False
    with h have k: "shift + n \<le> k" by simp
    show ?thesis
    proof (cases "shift \<le> length xs")
      case True
      with k lb show ?thesis
        by (auto simp: v nth_append min_def)
    next
      case False
      with lb have "length blk = 0" by simp
      with False show ?thesis
        by (simp add: v)
    qed
  qed
qed


subsection \<open>What the loop of computeVVS leaves alone\<close>

lemma preTracking_poses:
  "preTracking X I s = (nbInfos, nbFaceUsed, s1) \<Longrightarrow>
     cMo s1 = cMo s \<and> c0Mo s1 = c0Mo s \<and> ctTc0 s1 = ctTc0 s"
  by (auto simp: preTracking_def Let_def split: prod.splits)

lemma computeVVS_iteration_cMo:
  "computeVVS_iteration X n it (loc, s\<lparr>cMo := P\<rparr>) =
     (case computeVVS_iteration X n it (loc, s) of
        Inl (e, s') \<Rightarrow> Inl (e, s'\<lparr>cMo := P\<rparr>)
      | Inr (loc', s') \<Rightarrow> Inr (loc', s'\<lparr>cMo := P\<rparr>))"
  by (simp add: computeVVS_iteration_def Let_def split: prod.splits option.splits)

lemma computeVVS_loop_cMo:
  "computeVVS_loop X n it (loc, s\<lparr>cMo := P\<rparr>) =
     (case computeVVS_loop X n it (loc, s) of
        (e, it', loc', s') \<Rightarrow> (e, it', loc', s'\<lparr>cMo := P\<rparr>))"
proof (induction X n it "(loc, s)" arbitrary: loc s rule: computeVVS_loop.induct)
  case (1 X n it loc s)
  note u1 = computeVVS_loop.simps [of X n it "(loc, s)"]
  note u2 = computeVVS_loop.simps [of X n it "(loc, s\<lparr>cMo := P\<rparr>)"]
  show ?case
  proof (cases "cast_int ((normRes loc - normRes_1 loc) * 100000000) \<noteq> 0
         \<and> it < maxIter s")
    case False
    then show ?thesis
      by (auto simp: u1 u2)
  next
    case True
    show ?thesis
    proof (cases "computeVVS_iteration X n it (loc, s)")
      case (Inl a)
      with True show ?thesis
        by (auto simp: u1 u2 computeVVS_iteration_cMo split: prod.splits)
    next
      case (Inr ls')
      obtain loc' s' where ls': "ls' = (loc', s')" by (cases ls')
      from True have c:
        "cast_int ((normRes (fst (loc, s)) - normRes_1 (fst (loc, s))) * 100000000) \<noteq> 0
         \<and> it < maxIter (snd (loc, s))" by simp
      from "1.hyps" [OF c Inr [unfolded ls']] True Inr ls' show ?thesis
        by (auto simp: u1 u2 computeVVS_iteration_cMo split: prod.splits)
    qed
  qed
qed

lemma computeVVS_iteration_frame:
  "computeVVS_iteration X n it (loc, s) = Inr (loc', s') \<Longrightarrow>
     \<exists>fs T. s' = s\<lparr>faces := fs, ctTc0 := T\<rparr>"
  "computeVVS_iteration X n it (loc, s) = Inl (e, s'') \<Longrightarrow>
     \<exists>fs. s'' = s\<lparr>faces := fs, ctTc0 := ctTc0 s\<rparr>"
  by (auto simp: computeVVS_iteration_def Let_def split: prod.splits option.splits)

lemma computeVVS_loop_frame:
  "computeVVS_loop X n it (loc, s) = (e, it', loc', s') \<Longrightarrow>
     (\<exists>fs T. s' = s\<lparr>faces := fs, ctTc0 := T\<rparr>) \<and> it \<le> it' \<and> it' \<le> max it (maxIter s)"
proof (induction X n it "(loc, s)" arbitrary: loc s rule: computeVVS_loop.induct)
  case (1 X n it loc s)
  note u = computeVVS_loop.simps [of X n it "(loc, s)"]
  have "s = s\<lparr>faces := faces s, ctTc0 := ctTc0 s\<rparr>"
    by simp
  then have triv: "\<exists>fs T. s = s\<lparr>faces := fs, ctTc0 := T\<rparr>"
    by blast
  show ?case
  proof (cases "cast_int ((normRes loc - normRes_1 loc) * 100000000) \<noteq> 0
         \<and> it < maxIter s")
    case False
    with "1.prems" have e: "s' = s" "it' = it"
      by (auto simp: u)
    from triv e(1) have A: "\<exists>fs T. s' = s\<lparr>faces := fs, ctTc0 := T\<rparr>"
      by blast
    from e(2) have B: "it \<le> it' \<and> it' \<le> max it (maxIter s)"
      by simp
    from A B show ?thesis
      by (rule conjI)
  next
    case True
    show ?thesis
    proof (cases "computeVVS_iteration X n it (loc, s)")
      case (Inl a)
      obtain e0 s0 where a: "a = (e0, s0)" by (cases a)
      from True Inl a "1.prems" have e: "s' = s0" "it' = it"
        by (auto simp: u)
      from computeVVS_iteration_frame(2) [OF Inl [unfolded a]] e(1)
      have A: "\<exists>fs T. s' = s\<lparr>faces := fs, ctTc0 := T\<rparr>"
        by blast
      from e(2) have B: "it \<le> it' \<and> it' \<le> max it (maxIter s)"
        by simp
      from A B show ?thesis
        by (rule conjI)
    next
      case (Inr ls')
      obtain l1 s1 where ls': "ls' = (l1, s1)" by (cases ls')
      from True have c:
        "cast_int ((normRes (fst (loc, s)) - normRes_1 (fst (loc, s))) * 100000000) \<noteq> 0
         \<and> it < maxIter (snd (loc, s))" by simp
      from "1.prems" True Inr ls'
      have r: "computeVVS_loop X n (it + 1) (l1, s1) = (e, it', loc', s')"
        by (simp add: u)
      from computeVVS_iteration_frame(1) [OF Inr [unfolded ls']]
      obtain fs1 T1 where f: "s1 = s\<lparr>faces := fs1, ctTc0 := T1\<rparr>"
        by blast
      from "1.hyps" [OF c Inr [unfolded ls'] r]
      obtain fs2 T2 where g: "s' = s1\<lparr>faces := fs2, ctTc0 := T2\<rparr>"
        and b: "it + 1 \<le> it'" "it' \<le> max (it + 1) (maxIter s1)"
        by blast
      from f g have "s' = s\<lparr>faces := fs2, ctTc0 := T2\<rparr>"
        by simp
      then have A: "\<exists>fs T. s' = s\<lparr>faces := fs, ctTc0 := T\<rparr>"
        by blast
      from b f True have B: "it \<le> it' \<and> it' \<le> max it (maxIter s)"
        by auto
      from A B show ?thesis
        by (rule conjI)
    qed
  qed
qed

lemma preTracking_frame:
  "preTracking X I s = (a, b, s1) \<Longrightarrow> \<exists>c k fs. s1 = s\<lparr>cur := c, tracker := k, faces := fs\<rparr>"
  by (auto simp: preTracking_def Let_def split: prod.splits)

lemma postTracking_frame:
  "postTracking X I w s = (b, s1) \<Longrightarrow> \<exists>fs. s1 = s\<lparr>faces := fs\<rparr>"
  by (auto simp: postTracking_def Let_def split: prod.splits)

lemma init_maxIter: "maxIter (snd (init X I s)) = maxIter s"
  by (simp add: init_def Let_def split: prod.splits)

lemma computeVVS_maxIter:
  "maxIter (snd (computeVVS X n w s)) = maxIter s"
proof -
  obtain e it loc' s' where l: "computeVVS_loop X n 0
      (\<lparr> loc_R = replicate (u32 (2 * n)) 0, loc_J = replicate (u32 (2 * n)) (replicate 6 0),
         loc_w = w, normRes = 0, normRes_1 = - 1 \<rparr>, s) = (e, it, loc', s')"
    by (metis prod_cases4)
  from computeVVS_loop_frame [OF l] obtain fs T where "s' = s\<lparr>faces := fs, ctTc0 := T\<rparr>"
    by blast
  with l show ?thesis
    by (cases e) (simp_all add: computeVVS_def Let_def)
qed

lemma track_maxIter: "maxIter (snd (track X I s)) = maxIter s"
proof -
  obtain a b s1 where p: "preTracking X I s = (a, b, s1)"
    by (metis prod_cases3)
  from preTracking_frame [OF p] have m1: "maxIter s1 = maxIter s"
    by auto
  obtain r s2 where v: "computeVVS X a [] s1 = (r, s2)"
    by (cases "computeVVS X a [] s1")
  from computeVVS_maxIter [of X a "[]" s1] v have m2: "maxIter s2 = maxIter s1"
    by simp
  show ?thesis
  proof (cases "a < 4 \<or> b = 0")
    case True
    with p m1 show ?thesis by (simp add: track_def)
  next
    case False
    show ?thesis
    proof (cases r)
      case (Inl e)
      with p v False m1 m2 show ?thesis by (simp add: track_def)
    next
      case (Inr w)
      obtain re s3 where q: "postTracking X I w s2 = (re, s3)"
        by (cases "postTracking X I w s2")
      from postTracking_frame [OF q] have m3: "maxIter s3 = maxIter s2"
        by auto
      from p v False Inr q m1 m2 m3 init_maxIter [of X I s3] show ?thesis
        by (simp add: track_def)
    qed
  qed
qed

lemma computeVVS_iteration_ctTc0:
  "computeVVS_iteration X nbInfos iter (loc, s) = Inr (loc', s') \<Longrightarrow>
     ctTc0 s' = hm_mult X (hm_inverse X (exp_direct X
        (column_of X (mult_matrix X
           (scale_matrix X (- lambda s) (pseudoInverse X (AtA X (loc_J loc')) (1 / 10 ^ 16)))
           (computeJTR X (loc_J loc') (loc_R loc')))))) (ctTc0 s)"
  by (auto simp: computeVVS_iteration_def Let_def split: prod.splits option.splits)

lemma computeVVS_returns:
  assumes "computeVVS X nbInfos w s = (Inr w', s')"
  shows "cMo s' = hm_mult X (ctTc0 s') (c0Mo s') \<and> c0Mo s' = c0Mo s"
proof -
  obtain e it loc1 s1 where l: "computeVVS_loop X nbInfos 0
      (\<lparr> loc_R = replicate (u32 (2 * nbInfos)) 0,
         loc_J = replicate (u32 (2 * nbInfos)) (replicate 6 0),
         loc_w = w, normRes = 0, normRes_1 = - 1 \<rparr>, s) = (e, it, loc1, s1)"
    by (metis prod_cases4)
  from computeVVS_loop_frame [OF l] obtain fs T where f: "s1 = s\<lparr>faces := fs, ctTc0 := T\<rparr>"
    by blast
  from assms l have "s' = s1\<lparr>cMo := hm_mult X (ctTc0 s1) (c0Mo s1)\<rparr>"
    by (cases e) (simp_all add: computeVVS_def Let_def)
  with f show ?thesis
    by simp
qed

lemma computeVVS_iteration_normRes:
  assumes "computeVVS_iteration X nbInfos iter (loc, s) = Inr (loc', s')"
  shows "normRes_1 loc' = normRes loc"
    and "normRes loc' = sum_list (loc_R loc')"
    and "loc_R loc' = weight_residual
           (fst (snd (snd (computeVVS_faces X (ctTc0 s) 0 (faces s) 0 (loc_R loc) (loc_J loc)))))
           (loc_w loc')"
  using assms
  by (auto simp: computeVVS_iteration_def Let_def foldl_plus_sum_list
      split: prod.splits option.splits)

lemma computeVVS_loop_stops:
  "\<bar>normRes loc - normRes_1 loc\<bar> < 1 / 100000000 \<Longrightarrow>
     computeVVS_loop X nbInfos iter (loc, s) = (None, iter, loc, s)"
  using stopping_test [of "normRes loc" "normRes_1 loc"]
  by (simp add: computeVVS_loop.simps [of X nbInfos iter "(loc, s)"])

lemma length_weight_residual: "length (weight_residual rs ws) = length rs"
  by (induction rs ws rule: weight_residual.induct) auto

lemma computeVVS_iteration_buffers:
  assumes "computeVVS_iteration X nbInfos iter (loc, s) = Inr (loc', s')"
  shows "\<exists>fs R J shift.
      computeVVS_faces X (ctTc0 s) 0 (faces s) 0 (loc_R loc) (loc_J loc)
        = (None, fs, R, J, shift)
      \<and> loc_w loc' = MEstimator X iter (2 / px (cam s)) R
           (if iter = 0 then replicate (u32 (2 * nbInfos)) 1 else loc_w loc)
      \<and> loc_R loc' = weight_residual R (loc_w loc')
      \<and> loc_J loc' = (if iter = 0 \<or> compute_interaction s
                       then weight_interaction (length R) J (loc_w loc') else J)"
proof -
  obtain e fs R J shift where
    a: "computeVVS_faces X (ctTc0 s) 0 (faces s) 0 (loc_R loc) (loc_J loc) = (e, fs, R, J, shift)"
    by (metis prod_cases5)
  from assms a have e: "e = None"
    by (cases e) (simp_all add: computeVVS_iteration_def)
  from assms a e have
    "loc_w loc' = MEstimator X iter (2 / px (cam s)) R
           (if iter = 0 then replicate (u32 (2 * nbInfos)) 1 else loc_w loc)"
    "loc_R loc' = weight_residual R (loc_w loc')"
    "loc_J loc' = (if iter = 0 \<or> compute_interaction s
                       then weight_interaction (length R) J (loc_w loc') else J)"
    by (auto simp: computeVVS_iteration_def Let_def length_weight_residual)
  with a e show ?thesis
    by blast
qed

subsection \<open>Visibility of a face\<close>



subsection \<open>Removal of outliers\<close>

lemma dropOutliers_nths:
  "length ws = 2 * length cs \<Longrightarrow>
     dropOutliers ws thr cs = nths cs {k. \<not> (ws ! (2 * k) < thr \<or> ws ! (2 * k + 1) < thr)}"
proof (induction cs arbitrary: ws)
  case Nil
  then show ?case by simp
next
  case (Cons c cs)
  then obtain wx wy ws' where ws: "ws = wx # wy # ws'" "length ws' = 2 * length cs"
    by (cases ws; cases "tl ws") auto
  from Cons.IH [OF ws(2)] ws(1) show ?case
    by (simp add: nths_Cons)
qed

lemma dropOutliers_all_good:
  "\<forall>x \<in> set ws. thr \<le> x \<Longrightarrow> dropOutliers ws thr cs = cs"
  by (induction ws thr cs rule: dropOutliers.induct) auto

lemma length_postTracking_faces:
  "length (postTracking_faces w thr fs shift) = length fs"
  by (induction fs arbitrary: shift) (simp_all add: Let_def)

lemma postTracking_faces_nth:
  "i < length fs \<Longrightarrow>
     (\<not> (getIsTracked (fs ! i) \<and> hasEnoughPoints (fs ! i)) \<longrightarrow>
        postTracking_faces w thr fs shift ! i = fs ! i)
     \<and> (getIsTracked (fs ! i) \<and> hasEnoughPoints (fs ! i) \<longrightarrow>
        (\<exists>sh. postTracking_faces w thr fs shift ! i
           = removeOutliers (vpSub w sh (u32 (2 * getNbPointsCur (fs ! i)))) thr (fs ! i)))"
proof (induction fs arbitrary: i shift)
  case Nil
  then show ?case by simp
next
  case (Cons f fs)
  show ?case
  proof (cases i)
    case 0
    then show ?thesis
      by (auto simp: Let_def)
  next
    case (Suc k)
    with Cons.prems have k: "k < length fs"
      by simp
    from Cons.IH [OF k] Suc show ?thesis
      by (simp add: Let_def)
  qed
qed

lemma postTracking_faces_aligned:
  "i < length fs \<Longrightarrow> shift < 4294967296 \<Longrightarrow>
   getIsTracked (fs ! i) \<and> hasEnoughPoints (fs ! i) \<Longrightarrow>
   \<forall>j < i. curPoints (postTracking_faces w thr fs shift ! j) = curPoints (fs ! j) \<Longrightarrow>
     postTracking_faces w thr fs shift ! i
       = removeOutliers
           (vpSub w
              (u32 (shift + (\<Sum>f\<leftarrow>take i fs. if getIsTracked f \<and> hasEnoughPoints f
                                                then 2 * length (curPoints f) else 0)))
              (u32 (2 * getNbPointsCur (fs ! i))))
           thr (fs ! i)"
proof (induction fs arbitrary: i shift)
  case Nil
  then show ?case by simp
next
  case (Cons f fs)
  show ?case
  proof (cases i)
    case 0
    with Cons.prems show ?thesis
      by (simp add: Let_def u32_small)
  next
    case (Suc k)
    with Cons.prems have k: "k < length fs"
      and e: "getIsTracked (fs ! k) \<and> hasEnoughPoints (fs ! k)"
      by simp_all
    show ?thesis
    proof (cases "getIsTracked f \<and> hasEnoughPoints f")
      case False
      with Cons.prems(4) Suc
      have a: "\<forall>j < k. curPoints (postTracking_faces w thr fs shift ! j) = curPoints (fs ! j)"
        by auto
      from Cons.IH [OF k Cons.prems(2) e a] False Suc show ?thesis
        by auto
    next
      case True
      define f' where "f' = removeOutliers (vpSub w shift (u32 (2 * getNbPointsCur f))) thr f"
      define shift' where "shift' = u32 (shift + u32 (2 * getNbPointsCur f'))"
      from True have r: "postTracking_faces w thr (f # fs) shift
          = f' # postTracking_faces w thr fs shift'"
        by (simp add: f'_def shift'_def Let_def)
      from Cons.prems(4) Suc r have c: "curPoints f' = curPoints f"
        by auto
      have s: "shift' = u32 (shift + 2 * length (curPoints f))"
        by (simp add: shift'_def c getNbPointsCur_def u32_u32_add u32_mult_u32)
      from Cons.prems(4) Suc r
      have a: "\<forall>j < k. curPoints (postTracking_faces w thr fs shift' ! j) = curPoints (fs ! j)"
        by auto
      have b: "shift' < 4294967296"
        by (simp add: shift'_def u32_lt)
      from Cons.IH [OF k b e a] True Suc r show ?thesis
        by (simp add: s u32_u32_add add.assoc)
    qed
  qed
qed

lemma postTracking_faces_first_used:
  "i < length fs \<Longrightarrow> getIsTracked (fs ! i) \<and> hasEnoughPoints (fs ! i) \<Longrightarrow>
   \<forall>j < i. \<not> (getIsTracked (fs ! j) \<and> hasEnoughPoints (fs ! j)) \<Longrightarrow>
     postTracking_faces w thr fs shift ! i
       = removeOutliers (vpSub w shift (u32 (2 * getNbPointsCur (fs ! i)))) thr (fs ! i)"
proof (induction fs arbitrary: i)
  case Nil
  then show ?case by simp
next
  case (Cons f fs)
  show ?case
  proof (cases i)
    case 0
    with Cons.prems show ?thesis
      by (simp add: Let_def)
  next
    case (Suc k)
    with Cons.prems have k: "k < length fs"
      and e: "getIsTracked (fs ! k) \<and> hasEnoughPoints (fs ! k)"
      and a: "\<forall>j < k. \<not> (getIsTracked (fs ! j) \<and> hasEnoughPoints (fs ! j))"
      and f: "\<not> (getIsTracked f \<and> hasEnoughPoints f)"
      by auto
    from Cons.IH [OF k e a] f Suc show ?thesis
      by auto
  qed
qed

lemma setVisible_curPoints:
  "map curPoints (fst (setVisible X M aA aD fs)) = map curPoints fs"
  by (simp add: setVisible_def face_setVisible_def)

lemma postTracking_curPoints:
  "map curPoints (faces (snd (postTracking X I w s)))
     = map curPoints (postTracking_faces w (threshold_outlier s) (faces s) 0)"
  by (simp add: postTracking_def Let_def split_beta setVisible_curPoints)

subsection \<open>The rows of the faces\<close>

lemma computeVVS_faces_keeps:
  "computeVVS_faces X T i fs shift R J = (e, fs', R', J', shift') \<Longrightarrow>
     map isTracked fs' = map isTracked fs \<and> map curPoints fs' = map curPoints fs
     \<and> map minNbPoint fs' = map minNbPoint fs
     \<and> length R' = length R \<and> length J' = length J"
proof (induction fs arbitrary: i shift R J e fs' R' J' shift')
  case Nil
  then show ?case by simp
next
  case (Cons f fs)
  show ?case
  proof (cases "getIsTracked f \<and> hasEnoughPoints f")
    case False
    with Cons.prems obtain fs0 where
      r: "computeVVS_faces X T (Suc i) fs shift R J = (e, fs0, R', J', shift')"
      and f: "fs' = f # fs0"
      by (auto split: prod.splits)
    from Cons.IH [OF r] f show ?thesis
      by auto
  next
    case True
    show ?thesis
    proof (cases "computeHomography X T (geometry f)")
      case None
      with True Cons.prems show ?thesis
        by (auto simp: Let_def)
    next
      case (Some g)
      show ?thesis
      proof (cases "computeInteractionMatrixAndResidu X (f\<lparr>geometry := g\<rparr>)
                      (vpSub R shift (u32 (2 * getNbPointsCur f)))
                      (vpSub J shift (u32 (2 * getNbPointsCur f)))")
        case None
        with True Some Cons.prems show ?thesis
          by (auto simp: Let_def)
      next
        case (Some a)
        obtain subR' subJ' where a: "a = (subR', subJ')" by (cases a)
        from True \<open>computeHomography X T (geometry f) = Some g\<close> Some a Cons.prems
        obtain fs0 where
          r: "computeVVS_faces X T (Suc i) fs
                (u32 (shift + u32 (2 * getNbPointsCur (f\<lparr>geometry := g\<rparr>))))
                (vpSub_assign shift (u32 (2 * getNbPointsCur f)) subR' R)
                (vpSub_assign shift (u32 (2 * getNbPointsCur f)) subJ' J)
              = (e, fs0, R', J', shift')"
          and f: "fs' = f\<lparr>geometry := g\<rparr> # fs0"
          by (auto simp: Let_def split: prod.splits)
        from Cons.IH [OF r] f show ?thesis
          by (simp add: length_vpSub_assign)
      qed
    qed
  qed
qed

lemma computeVVS_faces_shift:
  "computeVVS_faces X T i fs shift R J = (None, fs', R', J', shift') \<Longrightarrow>
     shift < 4294967296 \<Longrightarrow>
     shift' = u32 (shift + (\<Sum>f\<leftarrow>fs. if getIsTracked f \<and> hasEnoughPoints f
                                       then 2 * length (curPoints f) else 0))"
proof (induction fs arbitrary: i shift R J fs' R' J' shift')
  case Nil
  then show ?case by (simp add: u32_small)
next
  case (Cons f fs)
  show ?case
  proof (cases "getIsTracked f \<and> hasEnoughPoints f")
    case False
    with Cons.prems obtain fs0 where
      r: "computeVVS_faces X T (Suc i) fs shift R J = (None, fs0, R', J', shift')"
      by (auto split: prod.splits)
    from Cons.IH [OF r Cons.prems(2)] False show ?thesis
      by auto
  next
    case True
    show ?thesis
    proof (cases "computeHomography X T (geometry f)")
      case None
      with True Cons.prems show ?thesis
        by (auto simp: Let_def)
    next
      case (Some g)
      show ?thesis
      proof (cases "computeInteractionMatrixAndResidu X (f\<lparr>geometry := g\<rparr>)
                      (vpSub R shift (u32 (2 * getNbPointsCur f)))
                      (vpSub J shift (u32 (2 * getNbPointsCur f)))")
        case None
        with True Some Cons.prems show ?thesis
          by (auto simp: Let_def)
      next
        case (Some a)
        obtain subR' subJ' where a: "a = (subR', subJ')" by (cases a)
        from True \<open>computeHomography X T (geometry f) = Some g\<close> Some a Cons.prems
        obtain fs0 where
          r: "computeVVS_faces X T (Suc i) fs
                (u32 (shift + u32 (2 * getNbPointsCur (f\<lparr>geometry := g\<rparr>))))
                (vpSub_assign shift (u32 (2 * getNbPointsCur f)) subR' R)
                (vpSub_assign shift (u32 (2 * getNbPointsCur f)) subJ' J)
              = (None, fs0, R', J', shift')"
          by (auto simp: Let_def split: prod.splits)
        have n: "getNbPointsCur (f\<lparr>geometry := g\<rparr>) = u32 (length (curPoints f))"
          by (simp add: getNbPointsCur_def)
        from Cons.IH [OF r u32_lt] True show ?thesis
          by (simp add: n u32_u32_add u32_mult_u32 add.assoc)
      qed
    qed
  qed
qed

lemma computeNbDetectedCurrent_isTracked:
  "isTracked (computeNbDetectedCurrent feats f) = isTracked f"
  by (simp add: computeNbDetectedCurrent_def)

lemma preTracking_faces_counts:
  "preTracking_faces feats fs a b = (fs', nbInfos, nbFaceUsed) \<Longrightarrow>
     a < 4294967296 \<Longrightarrow> b < 4294967296 \<Longrightarrow>
     nbInfos = u32 (a + (\<Sum>f\<leftarrow>fs'. if getIsTracked f \<and> hasEnoughPoints f
                                     then length (curPoints f) else 0))
     \<and> nbFaceUsed = u32 (b + length (filter (\<lambda>f. getIsTracked f \<and> hasEnoughPoints f) fs'))
     \<and> map isTracked fs' = map isTracked fs"
proof (induction fs arbitrary: a b fs' nbInfos nbFaceUsed)
  case Nil
  then show ?case by (simp add: u32_small)
next
  case (Cons f fs)
  define f' where "f' = computeNbDetectedCurrent feats f"
  have t: "isTracked f' = isTracked f"
    by (simp add: f'_def computeNbDetectedCurrent_isTracked)
  show ?case
  proof (cases "getIsTracked f")
    case False
    with Cons.prems(1) obtain fs0 where
      r: "preTracking_faces feats fs a b = (fs0, nbInfos, nbFaceUsed)" and f: "fs' = f # fs0"
      by (auto split: prod.splits)
    from Cons.IH [OF r Cons.prems(2,3)] f False show ?thesis
      by auto
  next
    case True
    show ?thesis
    proof (cases "hasEnoughPoints f'")
      case False
      with True Cons.prems(1) obtain fs0 where
        r: "preTracking_faces feats fs a b = (fs0, nbInfos, nbFaceUsed)" and f: "fs' = f' # fs0"
        by (auto simp: f'_def Let_def split: prod.splits)
      from Cons.IH [OF r Cons.prems(2,3)] f False t show ?thesis
        by auto
    next
      case e: True
      with True Cons.prems(1) obtain fs0 where
        r: "preTracking_faces feats fs (u32 (a + getNbPointsCur f')) (u32 (b + 1))
              = (fs0, nbInfos, nbFaceUsed)" and f: "fs' = f' # fs0"
        by (auto simp: f'_def Let_def split: prod.splits)
      from True t have g: "getIsTracked f'"
        by (simp add: getIsTracked_def)
      from Cons.IH [OF r u32_lt u32_lt] f e g t show ?thesis
        by (simp add: getNbPointsCur_def u32_u32_add add.assoc)
    qed
  qed
qed


lemma rows_cong:
  "map isTracked fs' = map isTracked fs \<Longrightarrow> map curPoints fs' = map curPoints fs \<Longrightarrow>
   map minNbPoint fs' = map minNbPoint fs \<Longrightarrow>
     (\<Sum>f\<leftarrow>fs'. if getIsTracked f \<and> hasEnoughPoints f then k * length (curPoints f) else 0)
   = (\<Sum>f\<leftarrow>fs. if getIsTracked f \<and> hasEnoughPoints f then k * length (curPoints f) else (0::nat))"
proof (induction fs arbitrary: fs')
  case Nil
  then show ?case by simp
next
  case (Cons f fs)
  then obtain g gs where g: "fs' = g # gs"
    by (cases fs') auto
  with Cons.prems have e: "isTracked g = isTracked f" "curPoints g = curPoints f"
    "minNbPoint g = minNbPoint f"
    and r: "map isTracked gs = map isTracked fs" "map curPoints gs = map curPoints fs"
      "map minNbPoint gs = map minNbPoint fs"
    by simp_all
  from Cons.IH [OF r] e g show ?case
    by (simp add: getIsTracked_def hasEnoughPoints_def getNbPointsCur_def)
qed

lemma computeVVS_faces_single:
  assumes "computeVVS_faces X T i [f] shift R J = (None, fs', R', J', shift')"
    and "k < shift
      \<or> shift + (if getIsTracked f \<and> hasEnoughPoints f then u32 (2 * getNbPointsCur f) else 0) \<le> k"
  shows "R' ! k = R ! k \<and> J' ! k = J ! k"
proof (cases "getIsTracked f \<and> hasEnoughPoints f")
  case False
  with assms(1) show ?thesis
    by auto
next
  case True
  with assms(2) have k: "k < shift \<or> shift + u32 (2 * getNbPointsCur f) \<le> k"
    by simp
  from True assms(1) obtain subR' subJ' where
    "R' = vpSub_assign shift (u32 (2 * getNbPointsCur f)) subR' R"
    "J' = vpSub_assign shift (u32 (2 * getNbPointsCur f)) subJ' J"
    by (auto simp: Let_def split: option.splits prod.splits)
  then show ?thesis
    by (simp add: nth_vpSub_assign [OF k])
qed

lemma computeVVS_iteration_keeps:
  "computeVVS_iteration X n it (loc, s) = Inr (loc', s') \<Longrightarrow>
     map isTracked (faces s') = map isTracked (faces s)
     \<and> map curPoints (faces s') = map curPoints (faces s)
     \<and> map minNbPoint (faces s') = map minNbPoint (faces s)"
proof -
  assume h: "computeVVS_iteration X n it (loc, s) = Inr (loc', s')"
  obtain e fs R J shift where
    a: "computeVVS_faces X (ctTc0 s) 0 (faces s) 0 (loc_R loc) (loc_J loc) = (e, fs, R, J, shift)"
    by (metis prod_cases5)
  from h a have "e = None"
    by (cases e) (simp_all add: computeVVS_iteration_def)
  with h a have "faces s' = fs"
    by (auto simp: computeVVS_iteration_def Let_def)
  with computeVVS_faces_keeps [OF a] show ?thesis
    by simp
qed


lemma rows_double:
  "(\<Sum>f\<leftarrow>fs. if P f then 2 * g f else 0) = 2 * (\<Sum>f\<leftarrow>fs. if P f then g f else (0::nat))"
  by (induction fs) simp_all

subsection \<open>What init does\<close>

lemma init_mask_eq:
  "init_mask X M a b i fs m =
     (map (face_changeFrame X M) fs,
      foldl (\<lambda>m (j, f). updateMask X (geometry f) m (u32_minus 255 (u32 (j * 15))) b) m
        (filter (\<lambda>(j, f). isVisible X M a f)
           (zip [i..<i + length fs] (map (face_changeFrame X M) fs))))"
proof (induction fs arbitrary: i m)
  case Nil
  then show ?case by simp
next
  case (Cons f fs)
  have "[i..<Suc (i + length fs)] = i # [Suc i..<Suc (i + length fs)]"
    by (rule upt_conv_Cons) simp
  then have u: "[i..<i + length (f # fs)] = i # [Suc i..<Suc i + length fs]"
    by simp
  show ?case
    by (simp only: u) (simp add: Cons.IH Let_def)
qed

lemma init_fails:
  "\<not> modelInitialised s \<Longrightarrow> init X I s = (Some ModelNotInitialised, s)"
  "modelInitialised s \<Longrightarrow> \<not> cameraInitialised s \<Longrightarrow> init X I s = (Some CameraNotInitialised, s)"
  by (simp_all add: init_def)

lemma init_succeeds:
  assumes "modelInitialised s" "cameraInitialised s"
  shows "init X I s =
    (None, s\<lparr> c0Mo := cMo s, ctTc0 := hm_identity X, cur := Some I,
              tracker := klt_initTracking X I
                (snd (init_mask X (cMo s) (angleAppears s) (maskBorder s) 0 (faces s)
                       (zeroMask X I))) (tracker s),
              iPI0 := init_points (klt_features X (klt_initTracking X I
                (snd (init_mask X (cMo s) (angleAppears s) (maskBorder s) 0 (faces s)
                       (zeroMask X I))) (tracker s))),
              faces := map (init_face X I (cam s) (cMo s) (angleAppears s)
                     (init_points (klt_features X (klt_initTracking X I
                        (snd (init_mask X (cMo s) (angleAppears s) (maskBorder s) 0 (faces s)
                               (zeroMask X I))) (tracker s)))))
                 (map (face_changeFrame X (cMo s)) (faces s)) \<rparr>)"
  using assms
  by (simp add: init_def Let_def init_mask_eq split: prod.splits)

lemma init_face_props:
  "isTracked (init_face X I c M a pts f)
     = (isVisible X M a f
        \<and> roiInsideImage X I (map (\<lambda>(x, y). convertPoint X c x y)
                                  (getPoints X (changeFrame X M (geometry f)))))"
  "isTracked (init_face X I c M a pts f) \<Longrightarrow>
     curPoints (init_face X I c M a pts f)
       = map (\<lambda>(ident, p). (ident, p, p))
           (filter (\<lambda>(ident, p). insideRoi X
                      (map (\<lambda>(x, y). convertPoint X c x y)
                         (getPoints X (changeFrame X M (geometry f)))) p) pts)"
  "\<not> isTracked (init_face X I c M a pts f) \<Longrightarrow>
     curPoints (init_face X I c M a pts f) = curPoints f"
  by (auto simp: init_face_def Let_def setIsTracked_def face_init_def face_changeFrame_def
      split: if_splits)

subsection \<open>Runs of the one-dimensional tracker\<close>

lemma toy_computeVVS_no_face:
  "computeVVS toy 0 [] ((toy_tracker [])\<lparr>c0Mo := 3, cMo := P\<rparr>)
     = (Inr [], (toy_tracker [])\<lparr>c0Mo := 3, cMo := 3\<rparr>)"
  by (simp add: computeVVS_def computeVVS_loop.simps computeVVS_iteration_def toy_def
      toy_tracker_def Let_def u32_small cast_int_def toy_column0_def)

lemma toy_first_pass:
  "computeVVS_iteration toy 4 0 (toy_locals0, toy_frame)
   = Inr (toy_locals1, toy_frame\<lparr> ctTc0 := 4 / 5 \<rparr>)"
  by (simp add: toy_eval)

lemma toy_run:
  "computeVVS_loop toy 4 0 (toy_locals0, toy_frame)
   = (None, 15,
      \<lparr> loc_R = [- (1 / 6103515625), 0, - (1 / 6103515625), 0,
                 - (1 / 6103515625), 0, - (1 / 6103515625), 0],
        loc_J = loc_J toy_locals1,
        loc_w = [1, 1, 1, 1, 1, 1, 1, 1],
        normRes = - (4 / 6103515625), normRes_1 = - (4 / 1220703125) \<rparr>,
      (toy_tracker [(toy_face 1 (toy_square 1))\<lparr> geometry := (1, 6103515624 / 6103515625) \<rparr>])
         \<lparr> ctTc0 := 30517578124 / 30517578125 \<rparr>)"
  by (simp add: toy_eval computeVVS_loop.simps)

lemma toy_computeVVS:
  "computeVVS toy 4 [] toy_frame
   = (Inr [1, 1, 1, 1, 1, 1, 1, 1],
      (toy_tracker [(toy_face 1 (toy_square 1))\<lparr> geometry := (1, 6103515624 / 6103515625) \<rparr>])
         \<lparr> ctTc0 := 30517578124 / 30517578125, cMo := 30517578124 / 30517578125 \<rparr>)"
  using toy_run
  by (simp add: computeVVS_def u32_small toy_locals0_def) (simp add: toy_tracker_def toy_def)

lemma toy_skewed_run:
  "computeVVS_loop toy 4 0 (toy_locals0, toy_tracker [toy_face 1 toy_skewed])
   = (None, 1,
      \<lparr> loc_R = [- 1, 1, - 1, 1, - 1, 1, - 1, 1],
        loc_J = loc_J toy_locals1,
        loc_w = [1, 1, 1, 1, 1, 1, 1, 1],
        normRes = 0, normRes_1 = 0 \<rparr>,
      (toy_tracker [toy_face 1 toy_skewed])\<lparr> ctTc0 := 4 / 5 \<rparr>)"
  by (simp add: toy_eval toy_skewed_def computeVVS_loop.simps)


lemma toy_far_first_pass:
  "computeVVS_iteration toy 4 0 (toy_locals0, toy_far)
   = Inr (toy_far_locals1, toy_far\<lparr> ctTc0 := 16 \<rparr>)"
  by (simp add: toy_eval toy_far_def toy_far_locals1_def)

lemma toy_far_second_pass:
  "computeVVS_iteration toy 4 1 (toy_far_locals1, toy_far\<lparr> ctTc0 := 16 \<rparr>)
   = Inr (toy_far_locals2,
          toy_far\<lparr> faces := [(toy_face 1 (toy_square 20))\<lparr> geometry := (1, 16) \<rparr>],
                   ctTc0 := 84 / 5 \<rparr>)"
  by (simp add: toy_eval toy_far_def toy_far_locals1_def toy_far_locals2_def)

lemma toy_postTracking_once:
  "map curPoints (faces (snd (postTracking toy [] toy_weights (toy_tracker [toy_face 1 toy_five]))))
   = [[(1, (0, 0), (0, 0)), (3, (1, 0), (1, 0)), (4, (1, 1), (1, 1)), (5, (2, 2), (2, 2))]]"
  by (simp add: postTracking_def setVisible_def face_setVisible_def isVisible_def toy_def
      toy_tracker_def toy_face_def toy_five_def toy_weights_def getIsTracked_def
      hasEnoughPoints_def getNbPointsCur_def removeOutliers_def vpSub_def u32_small Let_def)

lemma toy_postTracking_twice:
  "map curPoints (faces (snd (postTracking toy [] toy_weights
       (snd (postTracking toy [] toy_weights (toy_tracker [toy_face 1 toy_five]))))))
   = [[(1, (0, 0), (0, 0)), (4, (1, 1), (1, 1)), (5, (2, 2), (2, 2))]]"
  by (simp add: postTracking_def setVisible_def face_setVisible_def isVisible_def toy_def
      toy_tracker_def toy_face_def toy_five_def toy_weights_def getIsTracked_def
      hasEnoughPoints_def getNbPointsCur_def removeOutliers_def vpSub_def u32_small Let_def)


lemma toy_two_preTracking:
  "preTracking toy toy_image toy_two = (4, 1, toy_two_tracked)"
  by (simp add: preTracking_def computeNbDetectedCurrent_def toy_eval toy_two_def toy_two_tracked_def)

lemma toy_two_assembly:
  "computeVVS_faces toy 0 0 (faces toy_two_tracked) 0 (loc_R toy_locals0) (loc_J toy_locals0)
   = (None, faces toy_two_tracked, [- 1, 0, - 1, 0, - 1, 0, - 1, 0], loc_J toy_locals1, 8)"
  by (simp add: toy_eval toy_two_def toy_two_tracked_def)

lemma toy_two_assembly_second:
  "computeVVS_faces toy 0 1 [toy_face 1 (take 3 (toy_square 1))] 8
      [- 1, 0, - 1, 0, - 1, 0, - 1, 0] (loc_J toy_locals1)
   = (None, [toy_face 1 (take 3 (toy_square 1))], [- 1, 0, - 1, 0, - 1, 0, - 1, 0],
      loc_J toy_locals1, 8)"
  by (simp add: toy_eval toy_two_def toy_two_tracked_def)

lemma toy_two_first_pass:
  "computeVVS_iteration toy 4 0 (toy_locals0, toy_two_tracked)
   = Inr (toy_locals1, toy_two_tracked\<lparr> ctTc0 := 4 / 5 \<rparr>)"
  by (simp add: toy_eval toy_two_def toy_two_tracked_def)

lemma toy_hidden_preTracking:
  "preTracking toy toy_image toy_hidden = (4, 1, toy_hidden_tracked)"
  by (simp add: preTracking_def computeNbDetectedCurrent_def toy_eval toy_hidden_def toy_hidden_tracked_def)

lemma toy_hidden_run:
  "computeVVS_loop toy 4 0 (toy_locals0, toy_hidden_tracked)
   = (None, 15,
      \<lparr> loc_R = [- (1 / 6103515625), 0, - (1 / 6103515625), 0,
                 - (1 / 6103515625), 0, - (1 / 6103515625), 0],
        loc_J = loc_J toy_locals1,
        loc_w = [1, 1, 1, 1, 1, 1, 1, 1],
        normRes = - (4 / 6103515625), normRes_1 = - (4 / 1220703125) \<rparr>,
      toy_hidden_tracked
         \<lparr> faces := [(toy_face 1 (toy_square 1))
                       \<lparr> geometry := (1, 6103515624 / 6103515625), isvisible := False \<rparr>],
           ctTc0 := 30517578124 / 30517578125 \<rparr>)"
  by (simp add: toy_eval toy_hidden_def toy_hidden_tracked_def computeVVS_loop.simps)

lemma toy_hidden_computeVVS:
  "computeVVS toy 4 [] toy_hidden_tracked
   = (Inr [1, 1, 1, 1, 1, 1, 1, 1],
      toy_hidden_tracked
         \<lparr> faces := [(toy_face 1 (toy_square 1))
                       \<lparr> geometry := (1, 6103515624 / 6103515625), isvisible := False \<rparr>],
           ctTc0 := 30517578124 / 30517578125, cMo := 30517578124 / 30517578125 \<rparr>)"
  using toy_hidden_run
  by (simp add: computeVVS_def u32_small toy_locals0_def)
     (simp add: toy_tracker_def toy_def toy_hidden_tracked_def toy_hidden_def)

lemma toy_hidden_postTracking:
  "postTracking toy toy_image [1, 1, 1, 1, 1, 1, 1, 1]
     (toy_hidden_tracked
         \<lparr> faces := [(toy_face 1 (toy_square 1))
                       \<lparr> geometry := (1, 6103515624 / 6103515625), isvisible := False \<rparr>],
           ctTc0 := 30517578124 / 30517578125, cMo := 30517578124 / 30517578125 \<rparr>)
   = (True,
      toy_hidden_tracked
         \<lparr> faces := [(toy_face 1 (toy_square 1))
                       \<lparr> geometry := (1, 6103515624 / 6103515625) \<rparr>],
           ctTc0 := 30517578124 / 30517578125, cMo := 30517578124 / 30517578125 \<rparr>)"
  by (simp add: postTracking_def setVisible_def face_setVisible_def isVisible_def
      removeOutliers_def toy_eval toy_hidden_def toy_hidden_tracked_def)

subsection \<open>Insufficient data\<close>

text \<open>
  C1. When the pre-tracking of a frame counts fewer than 4 correspondences over the faces
  used, or no face used, \<open>track\<close> throws the not-enough-points exception; the state it
  leaves is the one \<open>preTracking\<close> left, so neither the refinement nor the post-tracking
  nor \<open>init\<close> has run, and \<open>cMo\<close>, \<open>c0Mo\<close> and \<open>ctTc0\<close> have the values they had before
  the call.
\<close>

theorem track_not_enough_data:
  assumes "preTracking X I s = (nbInfos, nbFaceUsed, s1)"
    and "nbInfos < 4 \<or> nbFaceUsed = 0"
  shows "track X I s = (Some NotEnoughPointError, s1)
    \<and> cMo (snd (track X I s)) = cMo s
    \<and> c0Mo (snd (track X I s)) = c0Mo s
    \<and> ctTc0 (snd (track X I s)) = ctTc0 s"
proof -
  from assms have t: "track X I s = (Some NotEnoughPointError, s1)"
    by (simp add: track_def)
  with preTracking_poses [OF assms(1)] show ?thesis
    by simp
qed

theorem track_not_enough_data_witness:
  "fst (track toy [(1, 1, 0), (2, 2, 0)]
          (toy_tracker [toy_face 1 [(1, (0, 0), (0, 0)), (2, (0, 1), (0, 1)),
                                    (3, (1, 0), (1, 0))]])) = Some NotEnoughPointError
   \<and> cMo (snd (track toy [(1, 1, 0), (2, 2, 0)]
          (toy_tracker [toy_face 1 [(1, (0, 0), (0, 0)), (2, (0, 1), (0, 1)),
                                    (3, (1, 0), (1, 0))]]))) = 0
   \<and> c0Mo (snd (track toy [(1, 1, 0), (2, 2, 0)]
          (toy_tracker [toy_face 1 [(1, (0, 0), (0, 0)), (2, (0, 1), (0, 1)),
                                    (3, (1, 0), (1, 0))]]))) = 0
   \<and> ctTc0 (snd (track toy [(1, 1, 0), (2, 2, 0)]
          (toy_tracker [toy_face 1 [(1, (0, 0), (0, 0)), (2, (0, 1), (0, 1)),
                                    (3, (1, 0), (1, 0))]]))) = 0"
proof -
  have p: "preTracking toy [(1, 1, 0), (2, 2, 0)]
      (toy_tracker [toy_face 1 [(1, (0, 0), (0, 0)), (2, (0, 1), (0, 1)),
                                (3, (1, 0), (1, 0))]])
    = (0, 0, (toy_tracker [toy_face 1 [(1, (0, 0), (0, 1)), (2, (0, 1), (0, 2))]])
               \<lparr>cur := Some [(1, 1, 0), (2, 2, 0)], tracker := [(1, 1, 0), (2, 2, 0)]\<rparr>)"
    by (simp add: preTracking_def toy_def toy_tracker_def toy_face_def getIsTracked_def
        computeNbDetectedCurrent_def hasEnoughPoints_def getNbPointsCur_def u32_small Let_def)
  have c: "(0::nat) < 4 \<or> (0::nat) = 0"
    by simp
  from track_not_enough_data [OF p c] show ?thesis
    by (simp add: toy_tracker_def)
qed

subsection \<open>The iteration cap\<close>

text \<open>
  C3. The loop of \<open>computeVVS\<close> is a total function: its recursion decreases
  \<open>maxIter - iter\<close>. Started with \<open>iter = 0\<close> it completes at most \<open>maxIter\<close> passes,
  whatever the faces, the residuals, the interaction matrices and the weights are. The
  constructor sets \<open>maxIter\<close> to 200, and \<open>track\<close>, \<open>init\<close> and \<open>setPose\<close> leave it
  as it is.
\<close>

theorem computeVVS_iteration_cap:
  "fst (snd (computeVVS_loop X nbInfos 0 (loc, s))) \<le> maxIter s
   \<and> maxIter (vpMbKltTracker_new X s0) = 200
   \<and> maxIter (snd (track X I s)) = maxIter s
   \<and> maxIter (snd (init X I s)) = maxIter s
   \<and> maxIter (setPose P s) = maxIter s"
proof -
  obtain e it loc' s' where l: "computeVVS_loop X nbInfos 0 (loc, s) = (e, it, loc', s')"
    by (metis prod_cases4)
  from computeVVS_loop_frame [OF l] have "it \<le> maxIter s"
    by simp
  with l show ?thesis
    by (simp add: vpMbKltTracker_new_def setPose_def track_maxIter init_maxIter)
qed


theorem computeVVS_iteration_cap_witness:
  "fst (snd (computeVVS_loop toy 0 0
      (\<lparr> loc_R = [], loc_J = [], loc_w = [], normRes = 0, normRes_1 = - 1 \<rparr>,
       vpMbKltTracker_new toy (toy_tracker [])))) = 1
   \<and> maxIter (vpMbKltTracker_new toy (toy_tracker [])) = 200"
  using computeVVS_iteration_cap [of toy 0
      "\<lparr> loc_R = [], loc_J = [], loc_w = [], normRes = 0, normRes_1 = - 1 \<rparr>"
      "vpMbKltTracker_new toy (toy_tracker [])" "toy_tracker []"]
  by (simp add: computeVVS_loop.simps computeVVS_iteration_def toy_def
      toy_tracker_def Let_def u32_small cast_int_def toy_column0_def vpMbKltTracker_new_def)

subsection \<open>setPose\<close>

text \<open>
  C10. \<open>setPose\<close> assigns \<open>cMo\<close> and leaves \<open>c0Mo\<close> and \<open>ctTc0\<close> as they are. A run
  of \<open>computeVVS\<close> that returns ends with \<open>cMo = ctTc0 * c0Mo\<close>, and its result, the
  whole state included, is the same for any other pose given to \<open>setPose\<close>. With the
  model and the camera initialised, \<open>init\<close> makes the pose given to \<open>setPose\<close> the
  anchor \<open>c0Mo\<close>.
\<close>

theorem setPose_overwritten:
  "cMo (setPose P s) = P \<and> c0Mo (setPose P s) = c0Mo s \<and> ctTc0 (setPose P s) = ctTc0 s
   \<and> (computeVVS X nbInfos w (setPose P s) = (Inr w', s') \<longrightarrow>
        cMo s' = hm_mult X (ctTc0 s') (c0Mo s')
        \<and> computeVVS X nbInfos w (setPose Q s) = (Inr w', s'))
   \<and> (modelInitialised s \<and> cameraInitialised s \<longrightarrow>
        c0Mo (snd (init X I (setPose P s))) = P)"
proof -
  have a: "cMo (setPose P s) = P \<and> c0Mo (setPose P s) = c0Mo s \<and> ctTc0 (setPose P s) = ctTc0 s"
    by (simp add: setPose_def)
  have b: "cMo s' = hm_mult X (ctTc0 s') (c0Mo s')
        \<and> computeVVS X nbInfos w (setPose Q s) = (Inr w', s')"
    if h: "computeVVS X nbInfos w (setPose P s) = (Inr w', s')"
    using h
    by (auto simp: computeVVS_def setPose_def Let_def computeVVS_loop_cMo
        split: prod.splits option.splits)
  have c: "c0Mo (snd (init X I (setPose P s))) = P"
    if "modelInitialised s \<and> cameraInitialised s"
    using that by (simp add: init_def setPose_def Let_def split: prod.splits)
  from a b c show ?thesis by blast
qed

theorem setPose_overwritten_witness:
  "cMo (setPose 5 ((toy_tracker [])\<lparr>c0Mo := 3\<rparr>)) = 5
   \<and> computeVVS toy 0 [] (setPose 5 ((toy_tracker [])\<lparr>c0Mo := 3\<rparr>))
       = (Inr [], (toy_tracker [])\<lparr>c0Mo := 3, cMo := 3\<rparr>)
   \<and> computeVVS toy 0 [] (setPose 7 ((toy_tracker [])\<lparr>c0Mo := 3\<rparr>))
       = (Inr [], (toy_tracker [])\<lparr>c0Mo := 3, cMo := 3\<rparr>)
   \<and> c0Mo (snd (init toy [] (setPose 5 ((toy_tracker [])\<lparr>c0Mo := 3\<rparr>)))) = 5"
proof -
  have e: "computeVVS toy 0 [] (setPose 5 ((toy_tracker [])\<lparr>c0Mo := 3\<rparr>))
       = (Inr [], (toy_tracker [])\<lparr>c0Mo := 3, cMo := 3\<rparr>)"
    using toy_computeVVS_no_face [of 5] by (simp add: setPose_def)
  have i: "modelInitialised ((toy_tracker [])\<lparr>c0Mo := 3\<rparr>)
      \<and> cameraInitialised ((toy_tracker [])\<lparr>c0Mo := 3\<rparr>)"
    by (simp add: toy_tracker_def)
  from setPose_overwritten [of 5 "(toy_tracker [])\<lparr>c0Mo := 3\<rparr>" toy 0 "[]" "[]"
      "(toy_tracker [])\<lparr>c0Mo := 3, cMo := 3\<rparr>" 7 "[]"] e i
  show ?thesis
    by simp
qed

subsection \<open>The update of the pose\<close>

text \<open>
  C2, as the code has it. In every pass of the loop of \<open>computeVVS\<close> that completes, the
  increment \<open>v\<close> solved from the weighted interaction matrix and residual of that pass is
  mapped to a transform by the exponential map, that transform is inverted, and the
  inverse is composed on the left of the previous \<open>ctTc0\<close>. When \<open>computeVVS\<close>
  returns, \<open>cMo = ctTc0 * c0Mo\<close> and \<open>c0Mo\<close> is the one of the call.
\<close>

theorem computeVVS_pose_update:
  "(computeVVS_iteration X nbInfos iter (loc, s) = Inr (loc', s') \<longrightarrow>
      ctTc0 s' = hm_mult X (hm_inverse X (exp_direct X
        (column_of X (mult_matrix X
           (scale_matrix X (- lambda s) (pseudoInverse X (AtA X (loc_J loc')) (1 / 10 ^ 16)))
           (computeJTR X (loc_J loc') (loc_R loc')))))) (ctTc0 s))
   \<and> (computeVVS X nbInfos w s = (Inr w', s'') \<longrightarrow>
        cMo s'' = hm_mult X (ctTc0 s'') (c0Mo s'') \<and> c0Mo s'' = c0Mo s)"
  using computeVVS_iteration_ctTc0 [of X nbInfos iter loc s loc' s']
    computeVVS_returns [of X nbInfos w s w' s'']
  by blast

theorem computeVVS_pose_update_witness:
  "ctTc0 (toy_frame\<lparr> ctTc0 := 4 / 5 \<rparr>)
     = hm_mult toy (hm_inverse toy (exp_direct toy [- (4 / 5)])) (ctTc0 toy_frame)
   \<and> cMo (snd (computeVVS toy 4 [] toy_frame))
     = hm_mult toy (ctTc0 (snd (computeVVS toy 4 [] toy_frame)))
         (c0Mo (snd (computeVVS toy 4 [] toy_frame)))
   \<and> c0Mo (snd (computeVVS toy 4 [] toy_frame)) = c0Mo toy_frame"
  using computeVVS_pose_update [of toy 4 0 toy_locals0 toy_frame toy_locals1
      "toy_frame\<lparr> ctTc0 := 4 / 5 \<rparr>" "[]" "[1, 1, 1, 1, 1, 1, 1, 1]"
      "snd (computeVVS toy 4 [] toy_frame)"]
    toy_first_pass toy_computeVVS
  by (simp add: toy_def toy_frame_def toy_tracker_def toy_locals1_def toy_column0_def)

text \<open>
  C2, as the claim words it: the transform of the increment, not inverted, composed on the
  left of the previous \<open>ctTc0\<close>. In the first pass on the square seen one unit further,
  the increment is \<open>- 4/5\<close>; composing its transform gives \<open>- 4/5\<close>, away from the
  displacement 1 of the square, while the code leaves \<open>ctTc0 = 4/5\<close>.
\<close>

theorem computeVVS_pose_update_counterexample:
  "computeVVS_iteration toy 4 0 (toy_locals0, toy_frame)
     = Inr (toy_locals1, toy_frame\<lparr> ctTc0 := 4 / 5 \<rparr>)
   \<and> column_of toy (mult_matrix toy
        (scale_matrix toy (- lambda toy_frame)
           (pseudoInverse toy (AtA toy (loc_J toy_locals1)) (1 / 10 ^ 16)))
        (computeJTR toy (loc_J toy_locals1) (loc_R toy_locals1))) = [- (4 / 5)]
   \<and> hm_mult toy (exp_direct toy [- (4 / 5)]) (ctTc0 toy_frame) = - (4 / 5)
   \<and> ctTc0 (toy_frame\<lparr> ctTc0 := 4 / 5 \<rparr>)
       \<noteq> hm_mult toy (exp_direct toy [- (4 / 5)]) (ctTc0 toy_frame)"
  using toy_first_pass
  by (simp add: toy_def toy_frame_def toy_tracker_def toy_locals1_def toy_column0_def)

subsection \<open>The stopping test\<close>

text \<open>
  C9. After a pass that completes, \<open>normRes_1\<close> is the previous \<open>normRes\<close> and \<open>normRes\<close>
  is the sum of the entries of the weighted residual, each the product \<open>w[i] * R[i]\<close>
  with its sign: no absolute value, no square. The test \<^verbatim>\<open>(int)((normRes - normRes_1)*1e8) != 0\<close>
  holds exactly when the two sums differ by at least \<open>1e-8\<close> in absolute value, so the
  loop stops as soon as they differ by less. The run on the square seen one unit further
  and one unit lower stops after one pass, the sum being \<open>0\<close> with every residual entry
  of magnitude 1 and \<open>ctTc0 = 4/5\<close>, where the same square without the offset in
  ordinate is refined for 15 passes. The arithmetic is the exact one of the reals.
\<close>

theorem convergence_on_signed_sum:
  "(computeVVS_iteration X nbInfos iter (loc, s) = Inr (loc', s') \<longrightarrow>
      normRes_1 loc' = normRes loc
      \<and> normRes loc' = sum_list (loc_R loc')
      \<and> loc_R loc' = weight_residual
           (fst (snd (snd (computeVVS_faces X (ctTc0 s) 0 (faces s) 0 (loc_R loc) (loc_J loc)))))
           (loc_w loc'))
   \<and> (length ws = length rs \<longrightarrow>
        sum_list (weight_residual rs ws) = (\<Sum>i<length rs. ws ! i * rs ! i))
   \<and> (cast_int ((a - b) * 100000000) \<noteq> 0 \<longleftrightarrow> 1 / 100000000 \<le> \<bar>a - b\<bar>)
   \<and> (\<bar>normRes loc - normRes_1 loc\<bar> < 1 / 100000000 \<longrightarrow>
        computeVVS_loop X nbInfos iter (loc, s) = (None, iter, loc, s))
   \<and> computeVVS_loop toy 4 0 (toy_locals0, toy_tracker [toy_face 1 toy_skewed])
      = (None, 1,
         \<lparr> loc_R = [- 1, 1, - 1, 1, - 1, 1, - 1, 1],
           loc_J = loc_J toy_locals1,
           loc_w = [1, 1, 1, 1, 1, 1, 1, 1],
           normRes = 0, normRes_1 = 0 \<rparr>,
         (toy_tracker [toy_face 1 toy_skewed])\<lparr> ctTc0 := 4 / 5 \<rparr>)"
proof -
  have A: "normRes_1 loc' = normRes loc
      \<and> normRes loc' = sum_list (loc_R loc')
      \<and> loc_R loc' = weight_residual
           (fst (snd (snd (computeVVS_faces X (ctTc0 s) 0 (faces s) 0 (loc_R loc) (loc_J loc)))))
           (loc_w loc')"
    if "computeVVS_iteration X nbInfos iter (loc, s) = Inr (loc', s')"
    using computeVVS_iteration_normRes [OF that] by blast
  have B: "sum_list (weight_residual rs ws) = (\<Sum>i<length rs. ws ! i * rs ! i)"
    if "length ws = length rs"
    using that by (simp add: weight_residual_map2 sum_list_map2_nth)
  note C = stopping_test [of a b]
  have D: "computeVVS_loop X nbInfos iter (loc, s) = (None, iter, loc, s)"
    if "\<bar>normRes loc - normRes_1 loc\<bar> < 1 / 100000000"
    using that by (rule computeVVS_loop_stops)
  from A B C D toy_skewed_run show ?thesis
    by blast
qed

theorem convergence_on_signed_sum_witness:
  "normRes toy_locals1 = sum_list (loc_R toy_locals1)
   \<and> normRes toy_locals1 = (\<Sum>i<8. loc_w toy_locals1 ! i * loc_R toy_locals1 ! i)
   \<and> cast_int ((normRes toy_locals1 - normRes_1 toy_locals1) * 100000000) \<noteq> 0
   \<and> computeVVS_loop toy 4 7
        (toy_locals1\<lparr> normRes_1 := - 4 \<rparr>, toy_frame)
      = (None, 7, toy_locals1\<lparr> normRes_1 := - 4 \<rparr>, toy_frame)"
proof -
  have l: "length (loc_w toy_locals1) = length (loc_R toy_locals1)"
    by (simp add: toy_locals1_def)
  have w: "weight_residual (loc_R toy_locals1) (loc_w toy_locals1) = loc_R toy_locals1"
    by (simp add: toy_locals1_def)
  have d: "\<bar>normRes (toy_locals1\<lparr> normRes_1 := - 4 \<rparr>)
      - normRes_1 (toy_locals1\<lparr> normRes_1 := - 4 \<rparr>)\<bar> < 1 / 100000000"
    by (simp add: toy_locals1_def)
  have g: "(1::real) / 100000000 \<le> \<bar>normRes toy_locals1 - normRes_1 toy_locals1\<bar>"
    by (simp add: toy_locals1_def)
  note T = convergence_on_signed_sum [of toy 4 0 toy_locals0 toy_frame toy_locals1
      "toy_frame\<lparr> ctTc0 := 4 / 5 \<rparr>" "loc_w toy_locals1" "loc_R toy_locals1"
      "normRes toy_locals1" "normRes_1 toy_locals1"]
  from T toy_first_pass have 1: "normRes toy_locals1 = sum_list (loc_R toy_locals1)"
    by blast
  from T l have "sum_list (weight_residual (loc_R toy_locals1) (loc_w toy_locals1))
        = (\<Sum>i<length (loc_R toy_locals1). loc_w toy_locals1 ! i * loc_R toy_locals1 ! i)"
    by blast
  with w have 2: "sum_list (loc_R toy_locals1)
        = (\<Sum>i<length (loc_R toy_locals1). loc_w toy_locals1 ! i * loc_R toy_locals1 ! i)"
    by simp
  from T g have 3: "cast_int ((normRes toy_locals1 - normRes_1 toy_locals1) * 100000000) \<noteq> 0"
    by blast
  from convergence_on_signed_sum [of toy 4 7 "toy_locals1\<lparr> normRes_1 := - 4 \<rparr>" toy_frame] d
  have 4: "computeVVS_loop toy 4 7 (toy_locals1\<lparr> normRes_1 := - 4 \<rparr>, toy_frame)
      = (None, 7, toy_locals1\<lparr> normRes_1 := - 4 \<rparr>, toy_frame)"
    by blast
  have "length (loc_R toy_locals1) = 8"
    by (simp add: toy_locals1_def)
  with 1 2 3 4 show ?thesis
    by simp
qed

subsection \<open>What a pass recomputes\<close>

text \<open>
  C5, as the code has it. In every pass of the loop that completes, whatever \<open>iter\<close> and
  \<open>compute_interaction\<close> are, the residual and the interaction matrix are filled again
  by the faces, the weights are recomputed by the M-estimator from that residual, and the
  residual is multiplied by the weights. The rows of the interaction matrix are
  multiplied by the weights when \<open>iter = 0\<close> or \<open>compute_interaction\<close> is set, which
  the constructor does; otherwise the matrix used is the one just filled, unweighted.
\<close>

theorem interaction_matrix_every_pass:
  "(computeVVS_iteration X nbInfos iter (loc, s) = Inr (loc', s') \<longrightarrow>
     (\<exists>fs R J shift.
        computeVVS_faces X (ctTc0 s) 0 (faces s) 0 (loc_R loc) (loc_J loc)
          = (None, fs, R, J, shift)
        \<and> loc_w loc' = MEstimator X iter (2 / px (cam s)) R
             (if iter = 0 then replicate (u32 (2 * nbInfos)) 1 else loc_w loc)
        \<and> loc_R loc' = weight_residual R (loc_w loc')
        \<and> loc_J loc' = (if iter = 0 \<or> compute_interaction s
                         then weight_interaction (length R) J (loc_w loc') else J)))
   \<and> compute_interaction (vpMbKltTracker_new X s0)"
  using computeVVS_iteration_buffers [of X nbInfos iter loc s loc' s']
  by (simp add: vpMbKltTracker_new_def)

theorem interaction_matrix_every_pass_witness:
  "(\<exists>fs R J shift.
      computeVVS_faces toy 16 0 (faces toy_far) 0 (loc_R toy_far_locals1) (loc_J toy_far_locals1)
        = (None, fs, R, J, shift)
      \<and> loc_R toy_far_locals2 = weight_residual R (loc_w toy_far_locals2)
      \<and> loc_J toy_far_locals2 = J)
   \<and> compute_interaction (vpMbKltTracker_new toy toy_far)"
proof -
  have f: "\<not> compute_interaction (toy_far\<lparr> ctTc0 := 16 \<rparr>)"
    "ctTc0 (toy_far\<lparr> ctTc0 := 16 \<rparr>) = 16"
    "faces (toy_far\<lparr> ctTc0 := 16 \<rparr>) = faces toy_far"
    by (simp_all add: toy_far_def)
  from interaction_matrix_every_pass [of toy 4 1 toy_far_locals1 "toy_far\<lparr> ctTc0 := 16 \<rparr>"
      toy_far_locals2
      "toy_far\<lparr> faces := [(toy_face 1 (toy_square 20))\<lparr> geometry := (1, 16) \<rparr>],
                ctTc0 := 84 / 5 \<rparr>" toy_far]
    toy_far_second_pass f
  show ?thesis
    by auto
qed

text \<open>
  C5, as the claim words it: with \<open>compute_interaction\<close> unset, the matrix of iteration 0
  would be used again in the second pass, and its rows would be weighted in every pass.
  On the square seen twenty units further, the matrix after the second pass is neither
  the matrix of the first pass nor a weighted one: it is the matrix the face has just
  filled, although the weights of that pass are not all 1.
\<close>

theorem interaction_matrix_every_pass_counterexample:
  "computeVVS_iteration toy 4 0 (toy_locals0, toy_far)
     = Inr (toy_far_locals1, toy_far\<lparr> ctTc0 := 16 \<rparr>)
   \<and> computeVVS_iteration toy 4 1 (toy_far_locals1, toy_far\<lparr> ctTc0 := 16 \<rparr>)
     = Inr (toy_far_locals2,
            toy_far\<lparr> faces := [(toy_face 1 (toy_square 20))\<lparr> geometry := (1, 16) \<rparr>],
                     ctTc0 := 84 / 5 \<rparr>)
   \<and> \<not> compute_interaction (toy_far\<lparr> ctTc0 := 16 \<rparr>)
   \<and> loc_J toy_far_locals2 \<noteq> loc_J toy_far_locals1
   \<and> loc_J toy_far_locals2
       \<noteq> weight_interaction (length (loc_R toy_far_locals2)) (loc_J toy_far_locals2)
            (loc_w toy_far_locals2)"
  using toy_far_first_pass toy_far_second_pass
  by (simp add: toy_far_def toy_far_locals1_def toy_far_locals2_def)

subsection \<open>Visibility with two thresholds\<close>




subsection \<open>Outlier removal\<close>

text \<open>
  C7, on the model of \<open>removeOutliers\<close> taken from the spec. \<open>postTracking\<close> gives the
  threshold \<open>threshold_outlier\<close>, 0.5 after the constructor, and a sub-vector of \<open>w\<close> of
  twice its correspondence count to every face that is tracked and has enough points,
  and leaves every other face as it is. The sub-vector of the first face used, wherever
  it is in the list, starts where the loop starts, at row 0; the sub-vector of a later
  face starts at the row at which the loop of \<open>computeVVS\<close> laid its weights out, as long
  as no face before it has lost a point. Given two weights for each point,
  \<open>removeOutliers\<close> keeps exactly the points neither of whose two weights is below the
  threshold. A second removal drops nothing when none of the weights it is given is
  below the threshold, as is the case of the weights of the points kept.
\<close>

theorem outlier_removal:
  "(length ws = 2 * length (curPoints f) \<longrightarrow>
      curPoints (removeOutliers ws thr f)
        = nths (curPoints f) {k. \<not> (ws ! (2 * k) < thr \<or> ws ! (2 * k + 1) < thr)})
   \<and> ((\<forall>x \<in> set ws'. thr \<le> x) \<longrightarrow>
        removeOutliers ws' thr (removeOutliers ws thr f) = removeOutliers ws thr f)
   \<and> length (postTracking_faces w thr fs shift) = length fs
   \<and> (\<forall>i < length fs.
        (\<not> (getIsTracked (fs ! i) \<and> hasEnoughPoints (fs ! i)) \<longrightarrow>
           postTracking_faces w thr fs shift ! i = fs ! i)
        \<and> (getIsTracked (fs ! i) \<and> hasEnoughPoints (fs ! i) \<longrightarrow>
           (\<exists>sh. postTracking_faces w thr fs shift ! i
              = removeOutliers (vpSub w sh (u32 (2 * getNbPointsCur (fs ! i)))) thr (fs ! i)))
        \<and> (getIsTracked (fs ! i) \<and> hasEnoughPoints (fs ! i)
            \<and> (\<forall>j < i. \<not> (getIsTracked (fs ! j) \<and> hasEnoughPoints (fs ! j))) \<longrightarrow>
           postTracking_faces w thr fs shift ! i
             = removeOutliers (vpSub w shift (u32 (2 * getNbPointsCur (fs ! i)))) thr (fs ! i))
        \<and> (shift < 4294967296 \<and> getIsTracked (fs ! i) \<and> hasEnoughPoints (fs ! i)
            \<and> (\<forall>j < i. curPoints (postTracking_faces w thr fs shift ! j) = curPoints (fs ! j))
            \<longrightarrow>
           postTracking_faces w thr fs shift ! i
             = removeOutliers
                 (vpSub w
                    (u32 (shift + (\<Sum>f\<leftarrow>take i fs. if getIsTracked f \<and> hasEnoughPoints f
                                                      then 2 * length (curPoints f) else 0)))
                    (u32 (2 * getNbPointsCur (fs ! i))))
                 thr (fs ! i)))
   \<and> map curPoints (faces (snd (postTracking X I w s)))
        = map curPoints (postTracking_faces w (threshold_outlier s) (faces s) 0)
   \<and> threshold_outlier (vpMbKltTracker_new X s0) = 1 / 2"
proof -
  have A: "curPoints (removeOutliers ws thr f)
        = nths (curPoints f) {k. \<not> (ws ! (2 * k) < thr \<or> ws ! (2 * k + 1) < thr)}"
    if "length ws = 2 * length (curPoints f)"
    using dropOutliers_nths [OF that] by (simp add: removeOutliers_def)
  have B: "removeOutliers ws' thr (removeOutliers ws thr f) = removeOutliers ws thr f"
    if "\<forall>x \<in> set ws'. thr \<le> x"
    by (simp add: removeOutliers_def dropOutliers_all_good [OF that])
  note C = length_postTracking_faces [of w thr fs shift]
  have D: "(\<not> (getIsTracked (fs ! i) \<and> hasEnoughPoints (fs ! i)) \<longrightarrow>
           postTracking_faces w thr fs shift ! i = fs ! i)
        \<and> (getIsTracked (fs ! i) \<and> hasEnoughPoints (fs ! i) \<longrightarrow>
           (\<exists>sh. postTracking_faces w thr fs shift ! i
              = removeOutliers (vpSub w sh (u32 (2 * getNbPointsCur (fs ! i)))) thr (fs ! i)))"
    if "i < length fs" for i
    using that by (rule postTracking_faces_nth)
  have E: "postTracking_faces w thr fs shift ! i
             = removeOutliers (vpSub w shift (u32 (2 * getNbPointsCur (fs ! i)))) thr (fs ! i)"
    if "i < length fs" "getIsTracked (fs ! i) \<and> hasEnoughPoints (fs ! i)
            \<and> (\<forall>j < i. \<not> (getIsTracked (fs ! j) \<and> hasEnoughPoints (fs ! j)))" for i
    using that postTracking_faces_first_used [of i fs w thr shift] by blast
  have F: "postTracking_faces w thr fs shift ! i
             = removeOutliers
                 (vpSub w
                    (u32 (shift + (\<Sum>f\<leftarrow>take i fs. if getIsTracked f \<and> hasEnoughPoints f
                                                      then 2 * length (curPoints f) else 0)))
                    (u32 (2 * getNbPointsCur (fs ! i))))
                 thr (fs ! i)"
    if "i < length fs" "shift < 4294967296 \<and> getIsTracked (fs ! i) \<and> hasEnoughPoints (fs ! i)
            \<and> (\<forall>j < i. curPoints (postTracking_faces w thr fs shift ! j) = curPoints (fs ! j))"
    for i
    using that postTracking_faces_aligned [of i fs shift w thr] by blast
  have G: "threshold_outlier (vpMbKltTracker_new X s0) = 1 / 2"
    by (simp add: vpMbKltTracker_new_def)
  note H = postTracking_curPoints [of X I w s]
  from D E F have DEF: "\<forall>i < length fs.
        (\<not> (getIsTracked (fs ! i) \<and> hasEnoughPoints (fs ! i)) \<longrightarrow>
           postTracking_faces w thr fs shift ! i = fs ! i)
        \<and> (getIsTracked (fs ! i) \<and> hasEnoughPoints (fs ! i) \<longrightarrow>
           (\<exists>sh. postTracking_faces w thr fs shift ! i
              = removeOutliers (vpSub w sh (u32 (2 * getNbPointsCur (fs ! i)))) thr (fs ! i)))
        \<and> (getIsTracked (fs ! i) \<and> hasEnoughPoints (fs ! i)
            \<and> (\<forall>j < i. \<not> (getIsTracked (fs ! j) \<and> hasEnoughPoints (fs ! j))) \<longrightarrow>
           postTracking_faces w thr fs shift ! i
             = removeOutliers (vpSub w shift (u32 (2 * getNbPointsCur (fs ! i)))) thr (fs ! i))
        \<and> (shift < 4294967296 \<and> getIsTracked (fs ! i) \<and> hasEnoughPoints (fs ! i)
            \<and> (\<forall>j < i. curPoints (postTracking_faces w thr fs shift ! j) = curPoints (fs ! j))
            \<longrightarrow>
           postTracking_faces w thr fs shift ! i
             = removeOutliers
                 (vpSub w
                    (u32 (shift + (\<Sum>f\<leftarrow>take i fs. if getIsTracked f \<and> hasEnoughPoints f
                                                      then 2 * length (curPoints f) else 0)))
                    (u32 (2 * getNbPointsCur (fs ! i))))
                 thr (fs ! i))"
    by blast
  from A B C DEF G H show ?thesis
    by blast
qed

theorem outlier_removal_witness:
  "curPoints (removeOutliers toy_weights (1 / 2) (toy_face 1 toy_five))
     = [(1, (0, 0), (0, 0)), (3, (1, 0), (1, 0)), (4, (1, 1), (1, 1)), (5, (2, 2), (2, 2))]
   \<and> nths (curPoints (toy_face 1 toy_five))
            {k. \<not> (toy_weights ! (2 * k) < 1 / 2 \<or> toy_weights ! (2 * k + 1) < 1 / 2)}
     = [(1, (0, 0), (0, 0)), (3, (1, 0), (1, 0)), (4, (1, 1), (1, 1)), (5, (2, 2), (2, 2))]
   \<and> removeOutliers [1, 1, 1, 1, 1, 1, 1, 1] (1 / 2)
        (removeOutliers toy_weights (1 / 2) (toy_face 1 toy_five))
     = removeOutliers toy_weights (1 / 2) (toy_face 1 toy_five)
   \<and> postTracking_faces toy_weights (1 / 2)
        [toy_face 1 (take 3 toy_five), toy_face 1 toy_five] 0
     = [toy_face 1 (take 3 toy_five), removeOutliers toy_weights (1 / 2) (toy_face 1 toy_five)]
   \<and> map (map fst \<circ> curPoints)
        (postTracking_faces [1, 1, 1, 1, 1, 1, 1, 1, 1, 1, 0, 0, 1, 1, 1, 1, 1, 1] (1 / 2)
           [toy_face 1 (toy_square 0), toy_face 1 toy_five] 0)
     = [[1, 2, 3, 4], [1, 3, 4, 5]]"
proof -
  let ?A = "toy_face 1 (take 3 toy_five)"
  let ?B = "toy_face 1 toy_five"
  let ?C = "toy_face 1 (toy_square 0)"
  let ?w = "[1, 1, 1, 1, 1, 1, 1, 1, 1, 1, 0, 0, 1, 1, 1, 1, 1, 1] :: real list"
  have l: "length toy_weights = 2 * length (curPoints ?B)"
    by (simp add: toy_weights_def toy_five_def toy_face_def)
  have g: "\<forall>x \<in> set [1, 1, 1, 1, 1, 1, 1, 1 :: real]. 1 / 2 \<le> x"
    by simp
  have eB: "getIsTracked ?B \<and> hasEnoughPoints ?B"
    by (simp add: getIsTracked_def hasEnoughPoints_def getNbPointsCur_def toy_face_def
        toy_five_def u32_small)
  have nA: "\<not> (getIsTracked ?A \<and> hasEnoughPoints ?A)"
    by (simp add: getIsTracked_def hasEnoughPoints_def getNbPointsCur_def toy_face_def
        toy_five_def u32_small)
  have v: "curPoints (removeOutliers toy_weights (1 / 2) ?B)
     = [(1, (0, 0), (0, 0)), (3, (1, 0), (1, 0)), (4, (1, 1), (1, 1)), (5, (2, 2), (2, 2))]"
    by (simp add: removeOutliers_def toy_weights_def toy_five_def toy_face_def)
  note T1 = outlier_removal [of toy_weights ?B "1 / 2" "[1, 1, 1, 1, 1, 1, 1, 1]"
      toy_weights "[?A, ?B]" 0 toy "[]" "toy_tracker [?B]" "toy_tracker []"]
  from T1 l have 1: "curPoints (removeOutliers toy_weights (1 / 2) ?B)
        = nths (curPoints ?B)
            {k. \<not> (toy_weights ! (2 * k) < 1 / 2 \<or> toy_weights ! (2 * k + 1) < 1 / 2)}"
    by blast
  from T1 g have 2: "removeOutliers [1, 1, 1, 1, 1, 1, 1, 1] (1 / 2)
        (removeOutliers toy_weights (1 / 2) ?B) = removeOutliers toy_weights (1 / 2) ?B"
    by blast
  from T1 have len: "length (postTracking_faces toy_weights (1 / 2) [?A, ?B] 0) = length [?A, ?B]"
    by blast
  from T1 have Q: "\<forall>i < length [?A, ?B].
        (\<not> (getIsTracked ([?A, ?B] ! i) \<and> hasEnoughPoints ([?A, ?B] ! i)) \<longrightarrow>
           postTracking_faces toy_weights (1 / 2) [?A, ?B] 0 ! i = [?A, ?B] ! i)
        \<and> (getIsTracked ([?A, ?B] ! i) \<and> hasEnoughPoints ([?A, ?B] ! i)
            \<and> (\<forall>j < i. \<not> (getIsTracked ([?A, ?B] ! j) \<and> hasEnoughPoints ([?A, ?B] ! j))) \<longrightarrow>
           postTracking_faces toy_weights (1 / 2) [?A, ?B] 0 ! i
             = removeOutliers (vpSub toy_weights 0 (u32 (2 * getNbPointsCur ([?A, ?B] ! i))))
                 (1 / 2) ([?A, ?B] ! i))"
    by blast
  from Q [rule_format, of 0] nA
  have 3: "postTracking_faces toy_weights (1 / 2) [?A, ?B] 0 ! 0 = ?A"
    by (simp del: postTracking_faces.simps)
  have t: "vpSub toy_weights 0 (u32 (2 * getNbPointsCur ?B)) = toy_weights"
    by (simp add: vpSub_def getNbPointsCur_def toy_face_def toy_five_def toy_weights_def u32_small)
  from Q [rule_format, of 1] nA eB t
  have 4: "postTracking_faces toy_weights (1 / 2) [?A, ?B] 0 ! 1
      = removeOutliers toy_weights (1 / 2) ?B"
    by (simp del: postTracking_faces.simps)
  from len 3 4 have 5: "postTracking_faces toy_weights (1 / 2) [?A, ?B] 0
      = [?A, removeOutliers toy_weights (1 / 2) ?B]"
    by (auto simp: list_eq_iff_nth_eq less_Suc_eq simp del: postTracking_faces.simps)
  note T2 = outlier_removal [of toy_weights ?B "1 / 2" "[1, 1, 1, 1, 1, 1, 1, 1]"
      ?w "[?C, ?B]" 0 toy "[]" "toy_tracker [?B]" "toy_tracker []"]
  have eC: "getIsTracked ?C \<and> hasEnoughPoints ?C"
    by (simp add: getIsTracked_def hasEnoughPoints_def getNbPointsCur_def toy_face_def
        toy_square_def u32_small)
  have tC: "vpSub ?w 0 (u32 (2 * getNbPointsCur ?C)) = [1, 1, 1, 1, 1, 1, 1, 1]"
    by (simp add: vpSub_def getNbPointsCur_def toy_face_def toy_square_def u32_small)
  from T2 have len2: "length (postTracking_faces ?w (1 / 2) [?C, ?B] 0) = length [?C, ?B]"
    by blast
  from T2 have R: "\<forall>i < length [?C, ?B].
        (getIsTracked ([?C, ?B] ! i) \<and> hasEnoughPoints ([?C, ?B] ! i)
            \<and> (\<forall>j < i. \<not> (getIsTracked ([?C, ?B] ! j) \<and> hasEnoughPoints ([?C, ?B] ! j))) \<longrightarrow>
           postTracking_faces ?w (1 / 2) [?C, ?B] 0 ! i
             = removeOutliers (vpSub ?w 0 (u32 (2 * getNbPointsCur ([?C, ?B] ! i))))
                 (1 / 2) ([?C, ?B] ! i))
        \<and> ((0::nat) < 4294967296 \<and> getIsTracked ([?C, ?B] ! i) \<and> hasEnoughPoints ([?C, ?B] ! i)
            \<and> (\<forall>j < i. curPoints (postTracking_faces ?w (1 / 2) [?C, ?B] 0 ! j)
                          = curPoints ([?C, ?B] ! j))
            \<longrightarrow>
           postTracking_faces ?w (1 / 2) [?C, ?B] 0 ! i
             = removeOutliers
                 (vpSub ?w
                    (u32 (0 + (\<Sum>f\<leftarrow>take i [?C, ?B]. if getIsTracked f \<and> hasEnoughPoints f
                                                      then 2 * length (curPoints f) else 0)))
                    (u32 (2 * getNbPointsCur ([?C, ?B] ! i))))
                 (1 / 2) ([?C, ?B] ! i))"
    by blast
  from R [rule_format, of 0] eC tC
  have 6: "postTracking_faces ?w (1 / 2) [?C, ?B] 0 ! 0
      = removeOutliers [1, 1, 1, 1, 1, 1, 1, 1] (1 / 2) ?C"
    by (simp del: postTracking_faces.simps)
  have k: "curPoints (removeOutliers [1, 1, 1, 1, 1, 1, 1, 1] (1 / 2) ?C) = curPoints ?C"
    by (simp add: removeOutliers_def toy_face_def toy_square_def)
  have sB: "vpSub ?w
      (u32 (0 + (\<Sum>f\<leftarrow>take 1 [?C, ?B]. if getIsTracked f \<and> hasEnoughPoints f
                                        then 2 * length (curPoints f) else 0)))
      (u32 (2 * getNbPointsCur ?B)) = toy_weights"
    using eC
    by (simp add: vpSub_def getNbPointsCur_def toy_face_def toy_five_def toy_square_def
        toy_weights_def u32_small)
  from R [rule_format, of 1] eB 6 k sB
  have 7: "postTracking_faces ?w (1 / 2) [?C, ?B] 0 ! 1 = removeOutliers toy_weights (1 / 2) ?B"
    by (simp del: postTracking_faces.simps)
  from len2 6 7 have 8: "postTracking_faces ?w (1 / 2) [?C, ?B] 0
      = [removeOutliers [1, 1, 1, 1, 1, 1, 1, 1] (1 / 2) ?C,
         removeOutliers toy_weights (1 / 2) ?B]"
    by (auto simp: list_eq_iff_nth_eq less_Suc_eq simp del: postTracking_faces.simps)
  have 9: "map (map fst \<circ> curPoints)
      [removeOutliers [1, 1, 1, 1, 1, 1, 1, 1] (1 / 2) ?C, removeOutliers toy_weights (1 / 2) ?B]
     = [[1, 2, 3, 4], [1, 3, 4, 5]]"
    by (simp add: k v) (simp add: toy_face_def toy_square_def)
  from 1 v have 10: "nths (curPoints ?B)
            {k. \<not> (toy_weights ! (2 * k) < 1 / 2 \<or> toy_weights ! (2 * k + 1) < 1 / 2)}
     = [(1, (0, 0), (0, 0)), (3, (1, 0), (1, 0)), (4, (1, 1), (1, 1)), (5, (2, 2), (2, 2))]"
    by simp
  from v 10 2 5 8 9 show ?thesis
    by (simp del: postTracking_faces.simps)
qed

text \<open>
  C7, as the claim words it: a second call with the same \<open>w\<close> keeps the same points.
  The weights are read by position. With five points and the weights of the second point
  at zero, the first call drops the second point; the second call reads the zero weights
  for the point that is now second, the third of the five, and drops it as well.
\<close>

theorem outlier_removal_counterexample:
  "map curPoints (faces (snd (postTracking toy [] toy_weights (toy_tracker [toy_face 1 toy_five]))))
     = [[(1, (0, 0), (0, 0)), (3, (1, 0), (1, 0)), (4, (1, 1), (1, 1)), (5, (2, 2), (2, 2))]]
   \<and> map curPoints (faces (snd (postTracking toy [] toy_weights
        (snd (postTracking toy [] toy_weights (toy_tracker [toy_face 1 toy_five]))))))
     = [[(1, (0, 0), (0, 0)), (4, (1, 1), (1, 1)), (5, (2, 2), (2, 2))]]
   \<and> map curPoints (faces (snd (postTracking toy [] toy_weights
        (snd (postTracking toy [] toy_weights (toy_tracker [toy_face 1 toy_five]))))))
     \<noteq> map curPoints (faces (snd (postTracking toy [] toy_weights
          (toy_tracker [toy_face 1 toy_five]))))"
  using toy_postTracking_once toy_postTracking_twice
  by simp

text \<open>
  The faces after a face that has lost a point. \<open>postTracking\<close> advances \<open>shift\<close> by twice
  the count the face has after the removal: line 236 reads the count again once
  \<^verbatim>\<open>removeOutliers\<close> has run. The loop of \<open>computeVVS\<close>, which laid the weights out,
  advances it by twice the count the face has during the pass. A face that comes after
  a face that has lost a point is therefore given a sub-vector that starts two rows too
  early for every point lost before it. With the five points followed by the four
  corners of the square, the second of the five points and the first corner having the
  weights zero, the corners are given the rows 8 to 15 instead of the rows 10 to 17: the
  second corner, whose weights are 1, is dropped and the first corner, whose weights are
  0, is kept, where the rows 10 to 17 drop the first corner only. The statement above
  makes no promise about such a face.
\<close>

lemma postTracking_later_face_misaligned:
  "map (map fst \<circ> curPoints)
     (postTracking_faces toy_weights_two (1 / 2)
        [toy_face 1 toy_five, toy_face 1 (toy_square 0)] 0)
     = [[1, 3, 4, 5], [1, 3, 4]]
   \<and> vpSub toy_weights_two 8 8 = [1, 1, 0, 0, 1, 1, 1, 1]
   \<and> vpSub toy_weights_two 10 8 = [0, 0, 1, 1, 1, 1, 1, 1]
   \<and> map fst (curPoints (removeOutliers (vpSub toy_weights_two 10 8) (1 / 2)
        (toy_face 1 (toy_square 0)))) = [2, 3, 4]"
  by (simp add: removeOutliers_def toy_face_def toy_five_def toy_square_def toy_weights_two_def
      getIsTracked_def hasEnoughPoints_def getNbPointsCur_def vpSub_def u32_small Let_def)

subsection \<open>The rows a face contributes\<close>

text \<open>
  C4. A face is used when it is tracked and has enough points. After the pre-tracking,
  \<open>nbInfos\<close> is the sum of the correspondence counts of the faces used, \<open>nbFaceUsed\<close>
  their number, and no face has changed its \<open>isTracked\<close> flag. In the loop that fills
  the residual and the matrix, \<open>shift\<close> advances by twice the correspondence count of
  every face used and by nothing for the others; a single face changes no row outside
  the \<open>2 * n\<close> rows that start at its \<open>shift\<close>, and a face that is not used changes
  no row at all; the loop changes neither the flags nor the correspondences of the faces
  nor the size of the buffers, and a pass of \<open>computeVVS\<close> does not either, so every pass
  lays the rows out in the same way. When the counts do not exceed 32 bits, the rows
  filled are exactly the \<open>2 * nbInfos\<close> rows of the buffers. All sums are modulo
  \<open>2 ^ 32\<close>, as the unsigned arithmetic of the source is.
\<close>

theorem rows_of_a_face:
  "(preTracking X I s = (nbInfos, nbFaceUsed, s1) \<longrightarrow>
      nbInfos = u32 (\<Sum>f\<leftarrow>faces s1. if getIsTracked f \<and> hasEnoughPoints f
                                      then length (curPoints f) else 0)
      \<and> nbFaceUsed = u32 (length (filter (\<lambda>f. getIsTracked f \<and> hasEnoughPoints f) (faces s1)))
      \<and> map isTracked (faces s1) = map isTracked (faces s))
   \<and> (computeVVS_faces X T i fs shift R J = (None, fs', R', J', shift')
        \<and> shift < 4294967296 \<longrightarrow>
        shift' = u32 (shift + (\<Sum>f\<leftarrow>fs. if getIsTracked f \<and> hasEnoughPoints f
                                          then 2 * length (curPoints f) else 0))
        \<and> map isTracked fs' = map isTracked fs \<and> map curPoints fs' = map curPoints fs
        \<and> map minNbPoint fs' = map minNbPoint fs
        \<and> length R' = length R \<and> length J' = length J)
   \<and> (computeVVS_faces X T i [f] shift R J = (None, gs, R1, J1, shift1)
        \<and> (k < shift
           \<or> shift + (if getIsTracked f \<and> hasEnoughPoints f
                      then u32 (2 * getNbPointsCur f) else 0) \<le> k) \<longrightarrow>
        R1 ! k = R ! k \<and> J1 ! k = J ! k)
   \<and> (computeVVS_iteration X nbInfos iter (loc, s1) = Inr (loc', s2) \<longrightarrow>
        map isTracked (faces s2) = map isTracked (faces s1)
        \<and> map curPoints (faces s2) = map curPoints (faces s1)
        \<and> map minNbPoint (faces s2) = map minNbPoint (faces s1))
   \<and> (preTracking X I s = (nbInfos, nbFaceUsed, s1)
        \<and> (\<Sum>f\<leftarrow>faces s1. 2 * length (curPoints f)) < 4294967296
        \<and> map isTracked fs = map isTracked (faces s1)
        \<and> map curPoints fs = map curPoints (faces s1)
        \<and> map minNbPoint fs = map minNbPoint (faces s1)
        \<and> computeVVS_faces X T i fs 0 R J = (None, fs', R', J', shift') \<longrightarrow>
        shift' = 2 * nbInfos \<and> u32 (2 * nbInfos) = shift')"
proof -
  have A: "nbInfos = u32 (\<Sum>f\<leftarrow>faces s1. if getIsTracked f \<and> hasEnoughPoints f
                                      then length (curPoints f) else 0)
      \<and> nbFaceUsed = u32 (length (filter (\<lambda>f. getIsTracked f \<and> hasEnoughPoints f) (faces s1)))
      \<and> map isTracked (faces s1) = map isTracked (faces s)"
    if p: "preTracking X I s = (nbInfos, nbFaceUsed, s1)"
  proof -
    from p have "preTracking_faces (klt_features X (klt_track X I (tracker s))) (faces s) 0 0
        = (faces s1, nbInfos, nbFaceUsed)"
      by (auto simp: preTracking_def Let_def split: prod.splits)
    from preTracking_faces_counts [OF this] show ?thesis
      by simp
  qed
  have B: "shift' = u32 (shift + (\<Sum>f\<leftarrow>fs. if getIsTracked f \<and> hasEnoughPoints f
                                          then 2 * length (curPoints f) else 0))
        \<and> map isTracked fs' = map isTracked fs \<and> map curPoints fs' = map curPoints fs
        \<and> map minNbPoint fs' = map minNbPoint fs
        \<and> length R' = length R \<and> length J' = length J"
    if "computeVVS_faces X T i fs shift R J = (None, fs', R', J', shift')
        \<and> shift < 4294967296"
    using that computeVVS_faces_shift [of X T i fs shift R J fs' R' J' shift']
      computeVVS_faces_keeps [of X T i fs shift R J None fs' R' J' shift']
    by blast
  have C: "R1 ! k = R ! k \<and> J1 ! k = J ! k"
    if "computeVVS_faces X T i [f] shift R J = (None, gs, R1, J1, shift1)
        \<and> (k < shift
           \<or> shift + (if getIsTracked f \<and> hasEnoughPoints f
                      then u32 (2 * getNbPointsCur f) else 0) \<le> k)"
    using that computeVVS_faces_single [of X T i f shift R J gs R1 J1 shift1 k]
    by blast
  have D: "map isTracked (faces s2) = map isTracked (faces s1)
        \<and> map curPoints (faces s2) = map curPoints (faces s1)
        \<and> map minNbPoint (faces s2) = map minNbPoint (faces s1)"
    if "computeVVS_iteration X nbInfos iter (loc, s1) = Inr (loc', s2)"
    using that by (rule computeVVS_iteration_keeps)
  have E: "shift' = 2 * nbInfos \<and> u32 (2 * nbInfos) = shift'"
    if h: "preTracking X I s = (nbInfos, nbFaceUsed, s1)
        \<and> (\<Sum>f\<leftarrow>faces s1. 2 * length (curPoints f)) < 4294967296
        \<and> map isTracked fs = map isTracked (faces s1)
        \<and> map curPoints fs = map curPoints (faces s1)
        \<and> map minNbPoint fs = map minNbPoint (faces s1)
        \<and> computeVVS_faces X T i fs 0 R J = (None, fs', R', J', shift')"
  proof -
    let ?n = "\<Sum>f\<leftarrow>faces s1. if getIsTracked f \<and> hasEnoughPoints f
                                then length (curPoints f) else 0"
    let ?m = "\<Sum>f\<leftarrow>faces s1. if getIsTracked f \<and> hasEnoughPoints f
                                then 2 * length (curPoints f) else 0"
    from h A have n: "nbInfos = u32 ?n"
      by blast
    have "?m \<le> (\<Sum>f\<leftarrow>faces s1. 2 * length (curPoints f))"
      by (rule sum_list_mono) simp
    with h have m: "?m < 4294967296"
      by simp
    have d: "?m = 2 * ?n"
      by (rule rows_double)
    from h have "shift' = u32 (0 + (\<Sum>f\<leftarrow>fs. if getIsTracked f \<and> hasEnoughPoints f
                                          then 2 * length (curPoints f) else 0))"
      using computeVVS_faces_shift [of X T i fs 0 R J fs' R' J' shift'] by simp
    also from h have "(\<Sum>f\<leftarrow>fs. if getIsTracked f \<and> hasEnoughPoints f
                                          then 2 * length (curPoints f) else 0) = ?m"
      using rows_cong [of fs "faces s1" 2] by blast
    finally have s: "shift' = ?m"
      using m by (simp add: u32_small)
    from m d have m2: "2 * ?n < 4294967296"
      by simp
    then have "?n < 4294967296"
      by simp
    with n s d m2 show ?thesis
      by (simp add: u32_small)
  qed
  from A B C D E show ?thesis
    by blast
qed

theorem rows_of_a_face_witness:
  "map isTracked (faces toy_two_tracked) = map isTracked (faces toy_two)
   \<and> map (\<lambda>f. getIsTracked f \<and> hasEnoughPoints f) (faces toy_two_tracked) = [True, False]
   \<and> snd (snd (snd (snd
        (computeVVS_faces toy 0 0 (faces toy_two_tracked) 0
           (loc_R toy_locals0) (loc_J toy_locals0)))))
      = 2 * fst (preTracking toy toy_image toy_two)
   \<and> fst (preTracking toy toy_image toy_two) = 4
   \<and> map curPoints (faces (toy_two_tracked\<lparr> ctTc0 := 4 / 5 \<rparr>))
      = map curPoints (faces toy_two_tracked)
   \<and> length [- 1, 0, - 1, 0, - 1, 0, - 1, 0 :: real] = length (loc_R toy_locals0)
   \<and> fst (snd (snd (computeVVS_faces toy 0 1 [toy_face 1 (take 3 (toy_square 1))] 8
        [- 1, 0, - 1, 0, - 1, 0, - 1, 0] (loc_J toy_locals1)))) ! 3
      = [- 1, 0, - 1, 0, - 1, 0, - 1, 0] ! 3"
proof -
  note T = rows_of_a_face [of toy toy_image toy_two 4 1 toy_two_tracked
      0 0 "faces toy_two_tracked" 0 "loc_R toy_locals0" "loc_J toy_locals0"
      "faces toy_two_tracked" "[- 1, 0, - 1, 0, - 1, 0, - 1, 0]" "loc_J toy_locals1" 8
      "toy_face 1 (take 3 (toy_square 1))" "[toy_face 1 (take 3 (toy_square 1))]"
      "[- 1, 0, - 1, 0, - 1, 0, - 1, 0]" "loc_J toy_locals1" 8 3
      0 toy_locals0 toy_locals1 "toy_two_tracked\<lparr> ctTc0 := 4 / 5 \<rparr>"]
  have b: "(\<Sum>f\<leftarrow>faces toy_two_tracked. 2 * length (curPoints f)) < 4294967296"
    by (simp add: toy_two_tracked_def toy_tracker_def toy_face_def toy_square_def)
  have z: "(0::nat) < 4294967296"
    by simp
  have e: "map (\<lambda>f. getIsTracked f \<and> hasEnoughPoints f) (faces toy_two_tracked) = [True, False]"
    by (simp add: toy_eval toy_two_tracked_def)
  from T toy_two_preTracking
  have 1: "map isTracked (faces toy_two_tracked) = map isTracked (faces toy_two)"
    by blast
  from T toy_two_preTracking toy_two_assembly b
  have 2: "(8::nat) = 2 * 4"
    by blast
  from T toy_two_first_pass
  have 3: "map curPoints (faces (toy_two_tracked\<lparr> ctTc0 := 4 / 5 \<rparr>))
      = map curPoints (faces toy_two_tracked)"
    by blast
  from T toy_two_assembly z
  have 4: "length [- 1, 0, - 1, 0, - 1, 0, - 1, 0 :: real] = length (loc_R toy_locals0)"
    by blast
  have k: "(3::nat) < 8
      \<or> 8 + (if getIsTracked (toy_face 1 (take 3 (toy_square 1)))
                \<and> hasEnoughPoints (toy_face 1 (take 3 (toy_square 1)))
              then u32 (2 * getNbPointsCur (toy_face 1 (take 3 (toy_square 1)))) else 0) \<le> 3"
    by simp
  from T toy_two_assembly_second k
  have 5: "[- 1, 0, - 1, 0, - 1, 0, - 1, 0 :: real] ! 3 = [- 1, 0, - 1, 0, - 1, 0, - 1, 0] ! 3"
    by blast
  from 1 e 3 4 toy_two_preTracking toy_two_assembly toy_two_assembly_second show ?thesis
    by simp
qed

subsection \<open>Re-initialisation\<close>

text \<open>
  C6. When the pre-tracking finds enough data, \<open>computeVVS\<close> returns and \<open>postTracking\<close>
  returns true, \<open>track\<close> is \<open>init\<close> on the same image, run on the state \<open>postTracking\<close>
  left. \<open>init\<close> throws and changes nothing when the model or the camera is not
  initialised. Otherwise it returns with \<open>c0Mo\<close> equal to \<open>cMo\<close>, which it leaves as it
  is, and \<open>ctTc0\<close> equal to the identity; the mask it gives the point tracker is the
  empty mask updated, in the order of the faces, by exactly the faces that are visible
  at \<open>c0Mo\<close> under \<open>angleAppears\<close>; \<open>iPI0\<close> holds the features detected; and a face is
  tracked afterwards exactly when it is visible and its projected polygon lies inside the
  image, in which case its correspondences are the detected points inside the polygon,
  each as its own reference, while every other face is untracked and keeps the
  correspondences it had.
\<close>

theorem reinitialisation:
  "(preTracking X I s = (nbInfos, nbFaceUsed, s1) \<and> \<not> (nbInfos < 4 \<or> nbFaceUsed = 0)
      \<and> computeVVS X nbInfos [] s1 = (Inr w, s2) \<and> postTracking X I w s2 = (True, s3) \<longrightarrow>
        track X I s = init X I s3)
   \<and> (\<not> modelInitialised s \<longrightarrow> init X I s = (Some ModelNotInitialised, s))
   \<and> (modelInitialised s \<and> \<not> cameraInitialised s \<longrightarrow>
        init X I s = (Some CameraNotInitialised, s))
   \<and> (modelInitialised s \<and> cameraInitialised s \<longrightarrow>
        fst (init X I s) = None
        \<and> c0Mo (snd (init X I s)) = cMo s
        \<and> ctTc0 (snd (init X I s)) = hm_identity X
        \<and> cMo (snd (init X I s)) = cMo s
        \<and> tracker (snd (init X I s))
            = klt_initTracking X I
                (foldl (\<lambda>m (j, f). updateMask X (geometry f) m (u32_minus 255 (u32 (j * 15)))
                                    (maskBorder s))
                   (zeroMask X I)
                   (filter (\<lambda>(j, f). isVisible X (cMo s) (angleAppears s) f)
                      (zip [0..<length (faces s)]
                         (map (face_changeFrame X (cMo s)) (faces s)))))
                (tracker s)
        \<and> iPI0 (snd (init X I s)) = init_points (klt_features X (tracker (snd (init X I s))))
        \<and> length (faces (snd (init X I s))) = length (faces s)
        \<and> (\<forall>i < length (faces s).
              isTracked (faces (snd (init X I s)) ! i)
                = (isVisible X (cMo s) (angleAppears s) (face_changeFrame X (cMo s) (faces s ! i))
                   \<and> roiInsideImage X I
                       (map (\<lambda>(x, y). convertPoint X (cam s) x y)
                          (getPoints X (changeFrame X (cMo s)
                             (changeFrame X (cMo s) (geometry (faces s ! i)))))))
              \<and> (isTracked (faces (snd (init X I s)) ! i) \<longrightarrow>
                   curPoints (faces (snd (init X I s)) ! i)
                     = map (\<lambda>(ident, p). (ident, p, p))
                         (filter (\<lambda>(ident, p). insideRoi X
                               (map (\<lambda>(x, y). convertPoint X (cam s) x y)
                                  (getPoints X (changeFrame X (cMo s)
                                     (changeFrame X (cMo s) (geometry (faces s ! i)))))) p)
                            (iPI0 (snd (init X I s)))))
              \<and> (\<not> isTracked (faces (snd (init X I s)) ! i) \<longrightarrow>
                   curPoints (faces (snd (init X I s)) ! i) = curPoints (faces s ! i))))"
proof -
  have A: "track X I s = init X I s3"
    if "preTracking X I s = (nbInfos, nbFaceUsed, s1) \<and> \<not> (nbInfos < 4 \<or> nbFaceUsed = 0)
      \<and> computeVVS X nbInfos [] s1 = (Inr w, s2) \<and> postTracking X I w s2 = (True, s3)"
    using that by (simp add: track_def)
  note B = init_fails(1) [of s X I]
  note C = init_fails(2) [of s X I]
  have D: "fst (init X I s) = None
        \<and> c0Mo (snd (init X I s)) = cMo s
        \<and> ctTc0 (snd (init X I s)) = hm_identity X
        \<and> cMo (snd (init X I s)) = cMo s
        \<and> tracker (snd (init X I s))
            = klt_initTracking X I
                (foldl (\<lambda>m (j, f). updateMask X (geometry f) m (u32_minus 255 (u32 (j * 15)))
                                    (maskBorder s))
                   (zeroMask X I)
                   (filter (\<lambda>(j, f). isVisible X (cMo s) (angleAppears s) f)
                      (zip [0..<length (faces s)]
                         (map (face_changeFrame X (cMo s)) (faces s)))))
                (tracker s)
        \<and> iPI0 (snd (init X I s)) = init_points (klt_features X (tracker (snd (init X I s))))
        \<and> length (faces (snd (init X I s))) = length (faces s)"
    if "modelInitialised s \<and> cameraInitialised s"
    using that by (simp add: init_succeeds init_mask_eq)
  have E: "isTracked (faces (snd (init X I s)) ! i)
                = (isVisible X (cMo s) (angleAppears s) (face_changeFrame X (cMo s) (faces s ! i))
                   \<and> roiInsideImage X I
                       (map (\<lambda>(x, y). convertPoint X (cam s) x y)
                          (getPoints X (changeFrame X (cMo s)
                             (changeFrame X (cMo s) (geometry (faces s ! i)))))))
              \<and> (isTracked (faces (snd (init X I s)) ! i) \<longrightarrow>
                   curPoints (faces (snd (init X I s)) ! i)
                     = map (\<lambda>(ident, p). (ident, p, p))
                         (filter (\<lambda>(ident, p). insideRoi X
                               (map (\<lambda>(x, y). convertPoint X (cam s) x y)
                                  (getPoints X (changeFrame X (cMo s)
                                     (changeFrame X (cMo s) (geometry (faces s ! i)))))) p)
                            (iPI0 (snd (init X I s)))))
              \<and> (\<not> isTracked (faces (snd (init X I s)) ! i) \<longrightarrow>
                   curPoints (faces (snd (init X I s)) ! i) = curPoints (faces s ! i))"
    if h: "modelInitialised s \<and> cameraInitialised s" and i: "i < length (faces s)" for i
  proof -
    define pts where "pts = iPI0 (snd (init X I s))"
    define f1 where "f1 = face_changeFrame X (cMo s) (faces s ! i)"
    from h i have f: "faces (snd (init X I s)) ! i
        = init_face X I (cam s) (cMo s) (angleAppears s) pts f1"
      by (simp add: pts_def f1_def init_succeeds)
    have g: "geometry f1 = changeFrame X (cMo s) (geometry (faces s ! i))"
      "curPoints f1 = curPoints (faces s ! i)"
      by (simp_all add: f1_def face_changeFrame_def)
    from init_face_props [of X I "cam s" "cMo s" "angleAppears s" pts f1] show ?thesis
      unfolding f g pts_def [symmetric] f1_def [symmetric]
      by blast
  qed
  from A B C D E show ?thesis
    by blast
qed

theorem reinitialisation_witness:
  "track toy toy_image toy_hidden
     = init toy toy_image
         (toy_hidden_tracked
           \<lparr> faces := [(toy_face 1 (toy_square 1))
                         \<lparr> geometry := (1, 6103515624 / 6103515625) \<rparr>],
             ctTc0 := 30517578124 / 30517578125, cMo := 30517578124 / 30517578125 \<rparr>)
   \<and> fst (track toy toy_image toy_hidden) = None
   \<and> c0Mo (snd (track toy toy_image toy_hidden)) = 30517578124 / 30517578125
   \<and> ctTc0 (snd (track toy toy_image toy_hidden)) = 0
   \<and> isTracked (faces (snd (track toy toy_image toy_hidden)) ! 0)
   \<and> init toy toy_image (toy_hidden\<lparr> modelInitialised := False \<rparr>)
       = (Some ModelNotInitialised, toy_hidden\<lparr> modelInitialised := False \<rparr>)
   \<and> init toy toy_image (toy_hidden\<lparr> cameraInitialised := False \<rparr>)
       = (Some CameraNotInitialised, toy_hidden\<lparr> cameraInitialised := False \<rparr>)"
proof -
  let ?s2 = "toy_hidden_tracked
         \<lparr> faces := [(toy_face 1 (toy_square 1))
                       \<lparr> geometry := (1, 6103515624 / 6103515625), isvisible := False \<rparr>],
           ctTc0 := 30517578124 / 30517578125, cMo := 30517578124 / 30517578125 \<rparr>"
  let ?s3 = "toy_hidden_tracked
         \<lparr> faces := [(toy_face 1 (toy_square 1))
                       \<lparr> geometry := (1, 6103515624 / 6103515625) \<rparr>],
           ctTc0 := 30517578124 / 30517578125, cMo := 30517578124 / 30517578125 \<rparr>"
  have n: "\<not> ((4::nat) < 4 \<or> (1::nat) = 0)"
    by simp
  from reinitialisation [of toy toy_image toy_hidden 4 1 toy_hidden_tracked
      "[1, 1, 1, 1, 1, 1, 1, 1]" ?s2 ?s3]
    toy_hidden_preTracking n toy_hidden_computeVVS toy_hidden_postTracking
  have 1: "track toy toy_image toy_hidden = init toy toy_image ?s3"
    by blast
  have i: "modelInitialised ?s3 \<and> cameraInitialised ?s3"
    by (simp add: toy_hidden_tracked_def toy_hidden_def toy_tracker_def)
  have l: "0 < length (faces ?s3)"
    by simp
  have v: "isVisible toy (cMo ?s3) (angleAppears ?s3) (face_changeFrame toy (cMo ?s3) (faces ?s3 ! 0))
      \<and> roiInsideImage toy toy_image
          (map (\<lambda>(x, y). convertPoint toy (cam ?s3) x y)
             (getPoints toy (changeFrame toy (cMo ?s3)
                (changeFrame toy (cMo ?s3) (geometry (faces ?s3 ! 0))))))"
    by (simp add: isVisible_def face_changeFrame_def toy_def toy_face_def
        toy_hidden_tracked_def toy_hidden_def toy_tracker_def)
  note T = reinitialisation [of toy toy_image ?s3 4 1 toy_hidden_tracked
      "[1, 1, 1, 1, 1, 1, 1, 1]" ?s2 ?s3]
  from T i have 2: "fst (init toy toy_image ?s3) = None"
    and 3: "c0Mo (snd (init toy toy_image ?s3)) = cMo ?s3"
    and 4: "ctTc0 (snd (init toy toy_image ?s3)) = hm_identity toy"
    by blast+
  from T i l v have 5: "isTracked (faces (snd (init toy toy_image ?s3)) ! 0)"
    by blast
  have m: "\<not> modelInitialised (toy_hidden\<lparr> modelInitialised := False \<rparr>)"
    by simp
  from reinitialisation [of toy toy_image "toy_hidden\<lparr> modelInitialised := False \<rparr>" 4 1
      toy_hidden_tracked "[1, 1, 1, 1, 1, 1, 1, 1]" ?s2 ?s3] m
  have 6: "init toy toy_image (toy_hidden\<lparr> modelInitialised := False \<rparr>)
       = (Some ModelNotInitialised, toy_hidden\<lparr> modelInitialised := False \<rparr>)"
    by blast
  have c: "modelInitialised (toy_hidden\<lparr> cameraInitialised := False \<rparr>)
      \<and> \<not> cameraInitialised (toy_hidden\<lparr> cameraInitialised := False \<rparr>)"
    by (simp add: toy_hidden_def toy_tracker_def)
  from reinitialisation [of toy toy_image "toy_hidden\<lparr> cameraInitialised := False \<rparr>" 4 1
      toy_hidden_tracked "[1, 1, 1, 1, 1, 1, 1, 1]" ?s2 ?s3] c
  have 7: "init toy toy_image (toy_hidden\<lparr> cameraInitialised := False \<rparr>)
       = (Some CameraNotInitialised, toy_hidden\<lparr> cameraInitialised := False \<rparr>)"
    by blast
  have 8: "cMo ?s3 = 30517578124 / 30517578125" "hm_identity toy = (0::real)"
    by (simp_all add: toy_def)
  from 1 2 3 4 5 6 7 8 show ?thesis
    by simp
qed

end
